theory Spec2Isabelle
  imports Main "HOL-Library.Sublist"
begin

section \<open>Data model (src/types/index.ts)\<close>

text \<open>
  The interfaces \<^verbatim>\<open>User\<close>, \<^verbatim>\<open>Doctor\<close> and \<^verbatim>\<open>Appointment\<close> become records, the
  string-literal unions become datatypes. Field names carry a prefix because record
  fields are global constants in HOL (\<^verbatim>\<open>id\<close>, \<^verbatim>\<open>status\<close> and \<^verbatim>\<open>created_at\<close> occur in
  several interfaces). Identifiers and dates are strings as in the source;
  \<^verbatim>\<open>created_at\<close> is the instant the store stamped on the row, a natural number here,
  since the store orders rows by that instant. The numeric fields of a doctor play no
  part in any operation below.
\<close>

datatype role = Patient | Doctor | Admin

datatype approval = AwaitingApproval | Approved | Rejected

datatype status = Pending | Confirmed | Cancelled | Completed

record user =
  u_id :: string
  u_email :: string
  u_role :: role
  u_full_name :: string
  u_phone :: "string option"
  u_created_at :: nat

record doctor =
  d_id :: string
  d_user_id :: string
  d_specialty :: string
  d_experience_years :: nat
  d_qualification :: string
  d_consultation_fee :: nat
  d_location :: string
  d_bio :: "string option"
  d_status :: approval
  d_availability :: "string option"
  d_created_at :: nat
  d_user :: "user option"

record appointment =
  a_id :: string
  a_patient_id :: string
  a_doctor_id :: string
  a_appointment_date :: string
  a_appointment_time :: string
  a_status :: status
  a_notes :: "string option"
  a_created_at :: nat
  a_doctor :: "doctor option"
  a_patient :: "user option"

section \<open>The record store and the page environment\<close>

text \<open>
  Modelled from the spec: the hosted record store (the \<^verbatim>\<open>supabase\<close> client of
  \<^verbatim>\<open>lib/supabase\<close>) is not part of the sources. Section 6 of the specification
  describes it: tables of users, doctors and appointments, exact-match filters that
  combine conjunctively, embedding of the related rows, ordering by a timestamp, and
  a single-record fetch with an existence check. Section 3 makes the id of a record
  unique. Every request may fail; the outcome of the coming requests is a tape in the
  environment (\<open>faults\<close>: \<open>Some m\<close> is a failure with message \<open>m\<close>, an exhausted tape
  means success), and \<open>defaults\<close> is the tape of the id and timestamp the store
  assigns to the rows it inserts. \<open>requests\<close> counts the requests issued, \<open>alerts\<close>
  and \<open>logs\<close> collect what the pages pass to \<^verbatim>\<open>alert\<close> and \<^verbatim>\<open>console.error\<close>.
\<close>

record store =
  users :: "user list"
  doctors :: "doctor list"
  appointments :: "appointment list"

datatype store_error = RemoteFault string | NotSingleRow

fun message :: "store_error \<Rightarrow> string" where
  "message (RemoteFault m) = m"
| "message NotSingleRow = ''JSON object requested, multiple (or no) rows returned''"

record world =
  db :: store
  faults :: "string option list"
  defaults :: "(string \<times> nat) list"
  requests :: nat
  alerts :: "string list"
  logs :: "(string \<times> store_error) list"

definition next_fault :: "world \<Rightarrow> string option" where
  "next_fault w = (case faults w of [] \<Rightarrow> None | f # fs \<Rightarrow> f)"

definition advance :: "world \<Rightarrow> world" where
  "advance w = w\<lparr>faults := tl (faults w), requests := Suc (requests w)\<rparr>"

definition console_error :: "string \<Rightarrow> store_error \<Rightarrow> world \<Rightarrow> world" where
  "console_error what e w = w\<lparr>logs := logs w @ [(what, e)]\<rparr>"

definition alert :: "string \<Rightarrow> world \<Rightarrow> world" where
  "alert m w = w\<lparr>alerts := alerts w @ [m]\<rparr>"

text \<open>
  Modelled from the spec: the store's embedding of related rows (section 6), as
  requested by \<^verbatim>\<open>user:users(..)\<close>, \<^verbatim>\<open>doctor:doctors(.., user:users(..))\<close> and
  \<^verbatim>\<open>patient:users(..)\<close>.
\<close>

definition embed_user :: "store \<Rightarrow> doctor \<Rightarrow> doctor" where
  "embed_user s d = d\<lparr>d_user := find (\<lambda>u. u_id u = d_user_id d) (users s)\<rparr>"

definition embed_appointment :: "store \<Rightarrow> appointment \<Rightarrow> appointment" where
  "embed_appointment s a =
     a\<lparr>a_doctor := map_option (embed_user s) (find (\<lambda>d. d_id d = a_doctor_id a) (doctors s)),
       a_patient := find (\<lambda>u. u_id u = a_patient_id a) (users s)\<rparr>"

text \<open>
  Modelled from the spec: the store's exact-match filter (section 6), for the request
  \<^verbatim>\<open>from('doctors').select(..).eq('status', 'approved')\<close>.
\<close>

definition approved_doctors :: "store \<Rightarrow> doctor list" where
  "approved_doctors s = map (embed_user s) (filter (\<lambda>d. d_status d = Approved) (doctors s))"

definition select_approved_doctors :: "world \<Rightarrow> (store_error + doctor list) \<times> world" where
  "select_approved_doctors w =
     (case next_fault w of
        Some m \<Rightarrow> (Inl (RemoteFault m), advance w)
      | None \<Rightarrow> (Inr (approved_doctors (db w)), advance w))"

text \<open>
  Modelled from the spec: the store's single-record fetch with existence check
  (section 6), \<^verbatim>\<open>.single()\<close>: the rows selected must be exactly one.
\<close>

fun single :: "'a list \<Rightarrow> store_error + 'a" where
  "single [x] = Inr x"
| "single xs = Inl NotSingleRow"

section \<open>Strings of the source language\<close>

text \<open>
  \<^verbatim>\<open>String.prototype.toLowerCase\<close> belongs to the language, not to the sources, and
  it maps the letters of every script. What it makes of a non-empty string is
  therefore a parameter, \<open>lower\<close>, of every definition below that lower-cases; the
  empty string has nothing to map and stays empty. A character of the model stands
  for one unit of a source string. \<^verbatim>\<open>s.includes(t)\<close> searches \<open>t\<close> at every position
  of \<open>s\<close>.
\<close>

definition toLowerCase :: "(string \<Rightarrow> string) \<Rightarrow> string \<Rightarrow> string" where
  "toLowerCase lower s = (if s = [] then [] else lower s)"

fun includes_str :: "string \<Rightarrow> string \<Rightarrow> bool" where
  "includes_str [] t = (t = [])"
| "includes_str (c # s) t = (prefix t (c # s) \<or> includes_str s t)"

section \<open>DoctorList (doctor directory)\<close>

record doctor_list_state =
  dl_doctors :: "doctor list"
  dl_loading :: bool
  searchTerm :: string
  selectedSpecialty :: string
  selectedLocation :: string

definition doctor_list_initial :: doctor_list_state where
  "doctor_list_initial =
     \<lparr>dl_doctors = [], dl_loading = True, searchTerm = [], selectedSpecialty = [],
      selectedLocation = []\<rparr>"

definition fetchDoctors :: "world \<Rightarrow> doctor_list_state \<Rightarrow> world \<times> doctor_list_state" where
  "fetchDoctors w st =
     (case select_approved_doctors w of
        (Inl e, w1) \<Rightarrow> (console_error ''Error fetching doctors:'' e w1, st\<lparr>dl_loading := False\<rparr>)
      | (Inr rows, w1) \<Rightarrow> (w1, st\<lparr>dl_doctors := rows, dl_loading := False\<rparr>))"

text \<open>
  \<^verbatim>\<open>doctor.user?.full_name.toLowerCase().includes(..)\<close> is undefined, hence falsy, for
  a row without an embedded user. An empty string is falsy, so \<^verbatim>\<open>!selectedSpecialty\<close>
  holds exactly for the empty selection.
\<close>

definition matchesSearch :: "(string \<Rightarrow> string) \<Rightarrow> string \<Rightarrow> doctor \<Rightarrow> bool" where
  "matchesSearch lower term d =
     ((case d_user d of
         None \<Rightarrow> False
       | Some u \<Rightarrow>
           includes_str (toLowerCase lower (u_full_name u)) (toLowerCase lower term))
      \<or> includes_str (toLowerCase lower (d_specialty d)) (toLowerCase lower term))"

definition matchesSpecialty :: "string \<Rightarrow> doctor \<Rightarrow> bool" where
  "matchesSpecialty sel d = (sel = [] \<or> d_specialty d = sel)"

definition matchesLocation :: "string \<Rightarrow> doctor \<Rightarrow> bool" where
  "matchesLocation sel d = (sel = [] \<or> d_location d = sel)"

definition filteredDoctors :: "(string \<Rightarrow> string) \<Rightarrow> doctor_list_state \<Rightarrow> doctor list" where
  "filteredDoctors lower st =
     filter (\<lambda>d. matchesSearch lower (searchTerm st) d
                \<and> matchesSpecialty (selectedSpecialty st) d
                \<and> matchesLocation (selectedLocation st) d)
       (dl_doctors st)"

text \<open>
  The directory as one operation: the page is mounted (\<^verbatim>\<open>fetchDoctors\<close> runs once, from
  the initial state), the three inputs are set, and the filtered rows are shown.
\<close>

definition list_doctors ::
  "(string \<Rightarrow> string) \<Rightarrow> world \<Rightarrow> string \<Rightarrow> string \<Rightarrow> string \<Rightarrow> doctor list" where
  "list_doctors lower w term spec loc =
     filteredDoctors lower
       ((snd (fetchDoctors w doctor_list_initial))
          \<lparr>searchTerm := term, selectedSpecialty := spec, selectedLocation := loc\<rparr>)"

section \<open>AppointmentList\<close>

text \<open>
  Modelled from the spec: the store's conjunctive filtering and its ordering by a
  timestamp (section 6). The query is built by adding \<^verbatim>\<open>.eq(column, value)\<close>
  filters and ends with \<^verbatim>\<open>.order('created_at', { ascending: false })\<close>.
\<close>

datatype eq_filter = PatientIdEq string | DoctorIdEq string

fun satisfies :: "eq_filter \<Rightarrow> appointment \<Rightarrow> bool" where
  "satisfies (PatientIdEq x) a = (a_patient_id a = x)"
| "satisfies (DoctorIdEq x) a = (a_doctor_id a = x)"

definition order_desc :: "appointment list \<Rightarrow> appointment list" where
  "order_desc xs = rev (sort_key a_created_at xs)"

definition select_appointments ::
  "eq_filter list \<Rightarrow> world \<Rightarrow> (store_error + appointment list) \<times> world" where
  "select_appointments q w =
     (case next_fault w of
        Some m \<Rightarrow> (Inl (RemoteFault m), advance w)
      | None \<Rightarrow>
          (Inr (order_desc (map (embed_appointment (db w))
                  (filter (\<lambda>a. list_all (\<lambda>f. satisfies f a) q) (appointments (db w))))),
           advance w))"

text \<open>
  Modelled from the spec: the store's answer to
  \<^verbatim>\<open>from('doctors').select('id').eq('user_id', user.id).single()\<close>.
\<close>

definition select_doctor_id :: "string \<Rightarrow> world \<Rightarrow> (store_error + string) \<times> world" where
  "select_doctor_id uid w =
     (case next_fault w of
        Some m \<Rightarrow> (Inl (RemoteFault m), advance w)
      | None \<Rightarrow>
          (case single (filter (\<lambda>d. d_user_id d = uid) (doctors (db w))) of
             Inl e \<Rightarrow> (Inl e, advance w)
           | Inr d \<Rightarrow> (Inr (d_id d), advance w)))"

text \<open>
  Modelled from the spec: the store's update of the rows that match a filter, for
  \<^verbatim>\<open>from('appointments').update({ status }).eq('id', appointmentId)\<close>; a request
  that matches no row is no error.
\<close>

definition set_status :: "string \<Rightarrow> status \<Rightarrow> appointment \<Rightarrow> appointment" where
  "set_status i s a = (if a_id a = i then a\<lparr>a_status := s\<rparr> else a)"

definition update_status :: "string \<Rightarrow> status \<Rightarrow> world \<Rightarrow> (store_error + unit) \<times> world" where
  "update_status i s w =
     (case next_fault w of
        Some m \<Rightarrow> (Inl (RemoteFault m), advance w)
      | None \<Rightarrow>
          (Inr (),
           (advance w)\<lparr>db := (db w)\<lparr>appointments := map (set_status i s) (appointments (db w))\<rparr>\<rparr>))"

datatype tab = All | Only status

record appointment_list_state =
  al_appointments :: "appointment list"
  al_loading :: bool
  al_filter :: tab

definition appointment_list_initial :: appointment_list_state where
  "appointment_list_initial = \<lparr>al_appointments = [], al_loading = True, al_filter = All\<rparr>"

text \<open>
  The doctor's own record is looked up first; the \<^verbatim>\<open>error\<close> of that lookup is not
  read, only \<^verbatim>\<open>data\<close>, and the filter on \<^verbatim>\<open>doctor_id\<close> is added only when
  \<^verbatim>\<open>doctorData\<close> is there.
\<close>

definition role_filter :: "user \<Rightarrow> world \<Rightarrow> eq_filter list \<times> world" where
  "role_filter u w =
     (case u_role u of
        Patient \<Rightarrow> ([PatientIdEq (u_id u)], w)
      | Doctor \<Rightarrow>
          (case select_doctor_id (u_id u) w of
             (Inr doctorData, w1) \<Rightarrow> ([DoctorIdEq doctorData], w1)
           | (Inl e, w1) \<Rightarrow> ([], w1))
      | Admin \<Rightarrow> ([], w))"

definition fetchAppointments ::
  "world \<Rightarrow> user option \<Rightarrow> appointment_list_state \<Rightarrow> world \<times> appointment_list_state" where
  "fetchAppointments w usr st =
     (case usr of
        None \<Rightarrow> (w, st)
      | Some u \<Rightarrow>
          (case role_filter u w of
             (q, w1) \<Rightarrow>
               (case select_appointments q w1 of
                  (Inl e, w2) \<Rightarrow>
                    (console_error ''Error fetching appointments:'' e w2, st\<lparr>al_loading := False\<rparr>)
                | (Inr rows, w2) \<Rightarrow>
                    (w2, st\<lparr>al_appointments := rows, al_loading := False\<rparr>))))"

text \<open>What a user is shown on opening the page: the rows of the first fetch.\<close>

definition listFor :: "world \<Rightarrow> user option \<Rightarrow> appointment list" where
  "listFor w usr = al_appointments (snd (fetchAppointments w usr appointment_list_initial))"

definition newest_first :: "appointment list \<Rightarrow> bool" where
  "newest_first xs = sorted_wrt (\<lambda>a b. a_created_at b \<le> a_created_at a) xs"

definition updateAppointmentStatus ::
  "world \<Rightarrow> user option \<Rightarrow> appointment_list_state \<Rightarrow> string \<Rightarrow> status
     \<Rightarrow> world \<times> appointment_list_state" where
  "updateAppointmentStatus w usr st appointmentId s =
     (case update_status appointmentId s w of
        (Inl e, w1) \<Rightarrow>
          (alert ''Failed to update appointment status''
             (console_error ''Error updating appointment:'' e w1), st)
      | (Inr u, w1) \<Rightarrow> fetchAppointments w1 usr st)"

definition filteredAppointments :: "appointment_list_state \<Rightarrow> appointment list" where
  "filteredAppointments st =
     filter (\<lambda>a. al_filter st = All \<or> Only (a_status a) = al_filter st) (al_appointments st)"

text \<open>
  The action buttons of one rendered appointment, in the order of the source, each
  with the status its handler passes to \<^verbatim>\<open>updateAppointmentStatus\<close>.
\<close>

definition actions :: "role option \<Rightarrow> status \<Rightarrow> status list" where
  "actions r s =
     (if r = Some Doctor \<and> s = Pending then [Confirmed, Cancelled] else [])
     @ (if r = Some Doctor \<and> s = Confirmed then [Completed] else [])
     @ (if r = Some Patient \<and> s = Pending then [Cancelled] else [])"

text \<open>The rows on the page: a spinner while loading, the filtered rows afterwards.\<close>

definition rendered :: "appointment_list_state \<Rightarrow> appointment list" where
  "rendered st = (if al_loading st then [] else filteredAppointments st)"

text \<open>
  Pressing the button for status \<open>t\<close> on the rendered appointment \<open>a\<close>; a button that
  is not on the page cannot be pressed.
\<close>

definition click ::
  "world \<Rightarrow> user option \<Rightarrow> appointment_list_state \<Rightarrow> appointment \<Rightarrow> status
     \<Rightarrow> world \<times> appointment_list_state" where
  "click w usr st a t =
     (if a \<in> set (rendered st) \<and> t \<in> set (actions (map_option u_role usr) (a_status a))
      then updateAppointmentStatus w usr st (a_id a) t
      else (w, st))"

text \<open>The transition table of section 4.4 of the specification, for comparison.\<close>

definition legal :: "status \<Rightarrow> status \<Rightarrow> bool" where
  "legal s t =
     ((s = Pending \<and> t = Confirmed) \<or> (s = Pending \<and> t = Cancelled)
      \<or> (s = Confirmed \<and> t = Completed))"

definition status_of :: "string \<Rightarrow> world \<Rightarrow> status option" where
  "status_of i w = map_option a_status (find (\<lambda>a. a_id a = i) (appointments (db w)))"

section \<open>BookAppointment\<close>

record booking_form =
  appointment_date :: string
  appointment_time :: string
  form_notes :: "string option"

record book_state =
  b_doctor :: "doctor option"
  b_loading :: bool
  submitting :: bool
  b_location :: string

definition book_initial :: "string \<Rightarrow> book_state" where
  "book_initial doctorId =
     \<lparr>b_doctor = None, b_loading = True, submitting = False,
      b_location = ''/book-appointment/'' @ doctorId\<rparr>"

text \<open>
  Modelled from the spec: the store's answer to
  \<^verbatim>\<open>.eq('id', doctorId).eq('status', 'approved').single()\<close> on the doctors table.
\<close>

definition select_approved_doctor :: "string \<Rightarrow> world \<Rightarrow> (store_error + doctor) \<times> world" where
  "select_approved_doctor i w =
     (case next_fault w of
        Some m \<Rightarrow> (Inl (RemoteFault m), advance w)
      | None \<Rightarrow>
          (single (map (embed_user (db w))
                     (filter (\<lambda>d. d_id d = i \<and> d_status d = Approved) (doctors (db w)))),
           advance w))"

text \<open>
  Modelled from the spec: the store's insertion,
  \<^verbatim>\<open>from('appointments').insert([row])\<close>. The store assigns the id and the creation
  time, and refuses a row whose id is already in the table (ids are unique, section 3).
\<close>

definition next_default :: "world \<Rightarrow> string \<times> nat" where
  "next_default w = (case defaults w of [] \<Rightarrow> ([], 0) | x # xs \<Rightarrow> x)"

definition insert_appointment :: "appointment \<Rightarrow> world \<Rightarrow> (store_error + unit) \<times> world" where
  "insert_appointment row w =
     (case next_fault w of
        Some m \<Rightarrow> (Inl (RemoteFault m), advance w)
      | None \<Rightarrow>
          (let w1 = (advance w)\<lparr>defaults := tl (defaults w)\<rparr>;
               stored = row\<lparr>a_id := fst (next_default w), a_created_at := snd (next_default w)\<rparr>
           in if a_id stored \<in> set (map a_id (appointments (db w)))
              then (Inl (RemoteFault ''duplicate key value violates unique constraint''), w1)
              else (Inr (), w1\<lparr>db := (db w)\<lparr>appointments := appointments (db w) @ [stored]\<rparr>\<rparr>)))"

definition fetchDoctor :: "world \<Rightarrow> string \<Rightarrow> book_state \<Rightarrow> world \<times> book_state" where
  "fetchDoctor w doctorId st =
     (case select_approved_doctor doctorId w of
        (Inl e, w1) \<Rightarrow>
          (console_error ''Error fetching doctor:'' e w1,
           st\<lparr>b_location := ''/doctors'', b_loading := False\<rparr>)
      | (Inr d, w1) \<Rightarrow> (w1, st\<lparr>b_doctor := Some d, b_loading := False\<rparr>))"

definition new_appointment :: "user \<Rightarrow> doctor \<Rightarrow> booking_form \<Rightarrow> appointment" where
  "new_appointment u d form =
     \<lparr>a_id = [], a_patient_id = u_id u, a_doctor_id = d_id d,
      a_appointment_date = appointment_date form, a_appointment_time = appointment_time form,
      a_status = Pending, a_notes = form_notes form, a_created_at = 0,
      a_doctor = None, a_patient = None\<rparr>"

definition onSubmit ::
  "world \<Rightarrow> user option \<Rightarrow> book_state \<Rightarrow> booking_form \<Rightarrow> world \<times> book_state" where
  "onSubmit w usr st form =
     (case (usr, b_doctor st) of
        (Some u, Some d) \<Rightarrow>
          (case insert_appointment (new_appointment u d form) w of
             (Inl e, w1) \<Rightarrow>
               (alert (if message e = [] then ''Failed to book appointment'' else message e)
                  (console_error ''Error booking appointment:'' e w1),
                st\<lparr>submitting := False\<rparr>)
           | (Inr x, w1) \<Rightarrow>
               (alert ''Appointment booked successfully! You will receive a confirmation once the doctor approves it.'' w1,
                st\<lparr>submitting := False, b_location := ''/appointments''\<rparr>))
      | other \<Rightarrow> (w, st))"

text \<open>
  Booking as one operation: the page for \<open>doctorId\<close> is mounted (\<^verbatim>\<open>fetchDoctor\<close> runs
  when \<open>doctorId\<close> is there), and the form, which is rendered only once a doctor has
  been loaded, is submitted.
\<close>

definition mount_booking :: "world \<Rightarrow> string \<Rightarrow> world \<times> book_state" where
  "mount_booking w doctorId =
     (if doctorId \<noteq> [] then fetchDoctor w doctorId (book_initial doctorId)
      else (w, book_initial doctorId))"

definition create :: "world \<Rightarrow> user option \<Rightarrow> string \<Rightarrow> booking_form \<Rightarrow> world \<times> book_state" where
  "create w usr doctorId form =
     (case mount_booking w doctorId of
        (w1, st1) \<Rightarrow>
          (if b_loading st1 \<or> b_doctor st1 = None then (w1, st1) else onSubmit w1 usr st1 form))"

subsection \<open>Dates and times on offer\<close>

text \<open>
  A date is the number of its day, counted from 1 January 1970, a Thursday;
  \<^verbatim>\<open>getDay()\<close> numbers Sunday 0 and Saturday 6.
\<close>

definition getDay :: "nat \<Rightarrow> nat" where
  "getDay d = (d + 4) mod 7"

definition isWeekend :: "nat \<Rightarrow> bool" where
  "isWeekend d = (getDay d = 0 \<or> getDay d = 6)"

definition addDays :: "nat \<Rightarrow> nat \<Rightarrow> nat" where
  "addDays d i = d + i"

function available_loop :: "nat \<Rightarrow> nat \<Rightarrow> nat list \<Rightarrow> nat list" where
  "available_loop currentDate i dates =
     (if i < 30
      then available_loop currentDate (i + 1)
             (if \<not> isWeekend (addDays currentDate i) then dates @ [addDays currentDate i]
              else dates)
      else dates)"
  by pat_completeness auto
termination
  by (relation "measure (\<lambda>(currentDate, i, dates). 30 - i)") auto

declare available_loop.simps [simp del]

definition getAvailableDates :: "nat \<Rightarrow> nat list" where
  "getAvailableDates today = available_loop today 0 []"

definition offered_dates :: "nat \<Rightarrow> nat list" where
  "offered_dates today = take 15 (getAvailableDates today)"

definition timeSlots :: "string list" where
  "timeSlots =
     [''09:00'', ''09:30'', ''10:00'', ''10:30'', ''11:00'', ''11:30'',
      ''14:00'', ''14:30'', ''15:00'', ''15:30'', ''16:00'', ''16:30'', ''17:00'']"

text \<open>
  The slots in words: every half hour from 09:00 to 11:30 and from 14:00 to 17:00,
  a time of day being minutes after midnight, written as hours and minutes of two
  digits each.
\<close>

definition digit :: "nat \<Rightarrow> char" where
  "digit n = ''0123456789'' ! n"

definition two_digits :: "nat \<Rightarrow> string" where
  "two_digits n = [digit (n div 10), digit (n mod 10)]"

definition clock_time :: "nat \<Rightarrow> string" where
  "clock_time m = two_digits (m div 60) @ '':'' @ two_digits (m mod 60)"

definition half_hours :: "nat \<Rightarrow> nat \<Rightarrow> nat list" where
  "half_hours start finish = map (\<lambda>k. start + 30 * k) [0 ..< Suc ((finish - start) div 30)]"

definition slots_by_interval :: "string list" where
  "slots_by_interval =
     map clock_time (half_hours (9 * 60) (11 * 60 + 30) @ half_hours (14 * 60) (17 * 60))"

section \<open>Several pages over one store\<close>

text \<open>
  Each open appointment page holds its own copy of the rows it fetched. An event is
  one user action on one page; a run applies a sequence of events to the store and
  the open pages.
\<close>

type_synonym page = "user \<times> appointment_list_state"

type_synonym system = "world \<times> page list"

datatype event =
    OpenPage user
  | Press nat appointment status
  | SetTab nat tab
  | Book user string booking_form

fun apply_event :: "event \<Rightarrow> system \<Rightarrow> system" where
  "apply_event (OpenPage u) (w, ps) =
     (case fetchAppointments w (Some u) appointment_list_initial of
        (w1, st1) \<Rightarrow> (w1, ps @ [(u, st1)]))"
| "apply_event (Press i a t) (w, ps) =
     (if i < length ps
      then (case click w (Some (fst (ps ! i))) (snd (ps ! i)) a t of
              (w1, st1) \<Rightarrow> (w1, ps[i := (fst (ps ! i), st1)]))
      else (w, ps))"
| "apply_event (SetTab i f) (w, ps) =
     (if i < length ps
      then (w, ps[i := (fst (ps ! i), (snd (ps ! i))\<lparr>al_filter := f\<rparr>)])
      else (w, ps))"
| "apply_event (Book u doctorId form) (w, ps) =
     (case create w (Some u) doctorId form of (w1, st1) \<Rightarrow> (w1, ps))"

fun run :: "event list \<Rightarrow> system \<Rightarrow> system" where
  "run [] s = s"
| "run (e # es) s = run es (apply_event e s)"

text \<open>
  The status the store holds for an id, and the invariant that links the rows held by
  the open pages to the store: ids are unique, every row of a page is a row of the
  store, and while the store holds an appointment as pending every page shows it as
  pending.
\<close>

definition row_status :: "string \<Rightarrow> appointment list \<Rightarrow> status option" where
  "row_status k xs = map_option a_status (find (\<lambda>a. a_id a = k) xs)"

definition consistent :: "system \<Rightarrow> bool" where
  "consistent s =
     (distinct (map a_id (appointments (db (fst s))))
      \<and> (\<forall>p \<in> set (snd s). \<forall>v \<in> set (al_appointments (snd p)).
            a_id v \<in> set (map a_id (appointments (db (fst s))))
            \<and> (status_of (a_id v) (fst s) = Some Pending \<longrightarrow> a_status v = Pending)))"

definition from_store :: "world \<Rightarrow> appointment list \<Rightarrow> bool" where
  "from_store w rows =
     (\<forall>v \<in> set rows. \<exists>a \<in> set (appointments (db w)). a_id v = a_id a \<and> a_status v = a_status a)"

section \<open>Sample data\<close>

definition ex_patient :: user where
  "ex_patient =
     \<lparr>u_id = ''u-pat'', u_email = ''pat@example.org'', u_role = Patient,
      u_full_name = ''Pat Lee'', u_phone = None, u_created_at = 1\<rparr>"

definition ex_doctor_user :: user where
  "ex_doctor_user =
     \<lparr>u_id = ''u-doc'', u_email = ''office@example.org'', u_role = Doctor,
      u_full_name = ''Cardio Associates'', u_phone = None, u_created_at = 2\<rparr>"

definition ex_second_doctor_user :: user where
  "ex_second_doctor_user =
     \<lparr>u_id = ''u-doc2'', u_email = ''dana@example.org'', u_role = Doctor,
      u_full_name = ''Dana Kim'', u_phone = None, u_created_at = 3\<rparr>"

definition ex_unlisted_doctor_user :: user where
  "ex_unlisted_doctor_user =
     \<lparr>u_id = ''u-new'', u_email = ''new@example.org'', u_role = Doctor,
      u_full_name = ''Noel Roe'', u_phone = None, u_created_at = 4\<rparr>"

definition ex_doctorA :: doctor where
  "ex_doctorA =
     \<lparr>d_id = ''d-A'', d_user_id = ''u-doc'', d_specialty = ''Heart'',
      d_experience_years = 12, d_qualification = ''MD'', d_consultation_fee = 80,
      d_location = ''Boston'', d_bio = None, d_status = Approved, d_availability = None,
      d_created_at = 2, d_user = None\<rparr>"

definition ex_doctorB :: doctor where
  "ex_doctorB =
     \<lparr>d_id = ''d-B'', d_user_id = ''u-doc2'', d_specialty = ''Skin'',
      d_experience_years = 3, d_qualification = ''MBBS'', d_consultation_fee = 50,
      d_location = ''Austin'', d_bio = None, d_status = AwaitingApproval,
      d_availability = None, d_created_at = 3, d_user = None\<rparr>"

definition ex_appointment1 :: appointment where
  "ex_appointment1 =
     \<lparr>a_id = ''a-1'', a_patient_id = ''u-pat'', a_doctor_id = ''d-A'',
      a_appointment_date = ''2025-03-10'', a_appointment_time = ''10:00'',
      a_status = Pending, a_notes = None, a_created_at = 10,
      a_doctor = None, a_patient = None\<rparr>"

definition ex_appointment2 :: appointment where
  "ex_appointment2 =
     \<lparr>a_id = ''a-2'', a_patient_id = ''u-pat'', a_doctor_id = ''d-B'',
      a_appointment_date = ''2025-03-11'', a_appointment_time = ''14:30'',
      a_status = Completed, a_notes = None, a_created_at = 20,
      a_doctor = None, a_patient = None\<rparr>"

definition ex_store :: store where
  "ex_store =
     \<lparr>users = [ex_patient, ex_doctor_user, ex_second_doctor_user, ex_unlisted_doctor_user],
      doctors = [ex_doctorA, ex_doctorB],
      appointments = [ex_appointment1, ex_appointment2]\<rparr>"

definition ex_world :: world where
  "ex_world =
     \<lparr>db = ex_store, faults = [], defaults = [(''a-3'', 30)], requests = 0,
      alerts = [], logs = []\<rparr>"

definition ex_world_failing :: world where
  "ex_world_failing = ex_world\<lparr>faults := [Some ''network unreachable'']\<rparr>"

definition ex_form :: booking_form where
  "ex_form =
     \<lparr>appointment_date = ''2025-03-12'', appointment_time = ''09:30'', form_notes = None\<rparr>"

text \<open>
  A sample of the language's lower-casing: the capital letters of ASCII and of the
  Latin-1 supplement are mapped to their small letters, every other character is
  kept. The user \<open>u-eric\<close> has a name that starts with a capital E with acute accent.
\<close>

definition sample_lower_char :: "char \<Rightarrow> char" where
  "sample_lower_char c =
     (let n = (of_char c :: nat)
      in if (65 \<le> n \<and> n \<le> 90) \<or> (192 \<le> n \<and> n \<le> 222 \<and> n \<noteq> 215)
         then char_of (n + 32) else c)"

definition sample_lower :: "string \<Rightarrow> string" where
  "sample_lower s = map sample_lower_char s"

definition ex_eric_user :: user where
  "ex_eric_user =
     \<lparr>u_id = ''u-eric'', u_email = ''eric@example.org'', u_role = Doctor,
      u_full_name = CHR 0xC9 # ''ric'', u_phone = None, u_created_at = 5\<rparr>"

definition ex_world_query_failing :: world where
  "ex_world_query_failing = ex_world\<lparr>faults := [None, Some ''network unreachable'']\<rparr>"

definition ex_row1 :: appointment where
  "ex_row1 = embed_appointment ex_store ex_appointment1"

definition ex_two_pages :: "event list" where
  "ex_two_pages = [OpenPage ex_patient, OpenPage ex_doctor_user, Press 0 ex_row1 Cancelled]"

section \<open>Bookkeeping of the environment\<close>

lemma advance_fields [simp]:
  "db (advance w) = db w" "alerts (advance w) = alerts w" "logs (advance w) = logs w"
  "requests (advance w) = Suc (requests w)" "faults (advance w) = tl (faults w)"
  "defaults (advance w) = defaults w"
  by (simp_all add: advance_def)

lemma console_error_fields [simp]:
  "db (console_error x e w) = db w" "alerts (console_error x e w) = alerts w"
  "logs (console_error x e w) = logs w @ [(x, e)]"
  "requests (console_error x e w) = requests w" "faults (console_error x e w) = faults w"
  "defaults (console_error x e w) = defaults w"
  by (simp_all add: console_error_def)

lemma alert_fields [simp]:
  "db (alert m w) = db w" "alerts (alert m w) = alerts w @ [m]" "logs (alert m w) = logs w"
  "requests (alert m w) = requests w" "faults (alert m w) = faults w"
  "defaults (alert m w) = defaults w"
  by (simp_all add: alert_def)

section \<open>The doctor directory\<close>

lemma includes_str_sublist: "includes_str s t \<longleftrightarrow> sublist t s"
  by (induction s) (auto simp: sublist_Cons_right)

lemma matchesSearch_sublist:
  "matchesSearch lower t d \<longleftrightarrow>
     (\<exists>u. d_user d = Some u
         \<and> sublist (toLowerCase lower t) (toLowerCase lower (u_full_name u)))
     \<or> sublist (toLowerCase lower t) (toLowerCase lower (d_specialty d))"
  by (auto simp: matchesSearch_def includes_str_sublist split: option.splits)

lemma matchesSearch_term_case:
  "toLowerCase lower t = toLowerCase lower t' \<Longrightarrow>
   matchesSearch lower t d = matchesSearch lower t' d"
  by (cases "d_user d") (simp_all add: matchesSearch_def)

text \<open>
  C4: the three filters are applied conjunctively. A doctor of the fetched rows is
  listed exactly when the lower-cased term is a contiguous part of the lower-cased
  full name of its embedded user or of its lower-cased specialty, and the specialty
  selection is empty or equals its specialty, and the location selection is empty or
  equals its location. (\<open>sublist\<close> is the contiguous-part relation of the library.)
  The match does not depend on the case of the term: two terms with the same
  lower-cased form select the same doctors. This holds for whatever the language's
  lower-casing makes of a string.
\<close>

theorem filteredDoctors_conjunctive:
  "(d \<in> set (filteredDoctors lower st) \<longleftrightarrow>
      d \<in> set (dl_doctors st)
      \<and> ((\<exists>u. d_user d = Some u
               \<and> sublist (toLowerCase lower (searchTerm st))
                    (toLowerCase lower (u_full_name u)))
           \<or> sublist (toLowerCase lower (searchTerm st)) (toLowerCase lower (d_specialty d)))
      \<and> (selectedSpecialty st = [] \<or> d_specialty d = selectedSpecialty st)
      \<and> (selectedLocation st = [] \<or> d_location d = selectedLocation st))
   \<and> (toLowerCase lower t = toLowerCase lower t' \<longrightarrow>
        filteredDoctors lower (st\<lparr>searchTerm := t\<rparr>)
          = filteredDoctors lower (st\<lparr>searchTerm := t'\<rparr>))"
proof
  show "d \<in> set (filteredDoctors lower st) \<longleftrightarrow>
      d \<in> set (dl_doctors st)
      \<and> ((\<exists>u. d_user d = Some u
               \<and> sublist (toLowerCase lower (searchTerm st))
                    (toLowerCase lower (u_full_name u)))
           \<or> sublist (toLowerCase lower (searchTerm st)) (toLowerCase lower (d_specialty d)))
      \<and> (selectedSpecialty st = [] \<or> d_specialty d = selectedSpecialty st)
      \<and> (selectedLocation st = [] \<or> d_location d = selectedLocation st)"
    by (simp add: filteredDoctors_def matchesSearch_sublist matchesSpecialty_def
        matchesLocation_def)
  show "toLowerCase lower t = toLowerCase lower t' \<longrightarrow>
        filteredDoctors lower (st\<lparr>searchTerm := t\<rparr>)
          = filteredDoctors lower (st\<lparr>searchTerm := t'\<rparr>)"
    by (simp add: filteredDoctors_def matchesSearch_term_case [of lower t t'])
qed

theorem filteredDoctors_conjunctive_witness:
  "toLowerCase sample_lower ''CARDIO'' = toLowerCase sample_lower ''cardio''
   \<and> filteredDoctors sample_lower
        (doctor_list_initial\<lparr>dl_doctors := approved_doctors ex_store, searchTerm := ''CARDIO''\<rparr>)
      = filteredDoctors sample_lower
        (doctor_list_initial\<lparr>dl_doctors := approved_doctors ex_store, searchTerm := ''cardio''\<rparr>)
   \<and> embed_user ex_store ex_doctorA
        \<in> set (filteredDoctors sample_lower
             (doctor_list_initial\<lparr>dl_doctors := approved_doctors ex_store,
                searchTerm := ''CARDIO''\<rparr>))"
proof -
  have h: "toLowerCase sample_lower ''CARDIO'' = toLowerCase sample_lower ''cardio''"
    by code_simp
  have m: "embed_user ex_store ex_doctorA
        \<in> set (filteredDoctors sample_lower
             (doctor_list_initial\<lparr>dl_doctors := approved_doctors ex_store,
                searchTerm := ''CARDIO''\<rparr>))"
    by code_simp
  from filteredDoctors_conjunctive
         [where lower = sample_lower and t = "''CARDIO''" and t' = "''cardio''"
            and st = "doctor_list_initial\<lparr>dl_doctors := approved_doctors ex_store\<rparr>"] h m
  show ?thesis by simp
qed

text \<open>
  With a lower-casing that maps the accented capital to its small letter, the term
  of the small letter finds the doctor whose name starts with the capital.
\<close>

lemma matchesSearch_accented:
  "matchesSearch sample_lower [CHR 0xE9] (ex_doctorA\<lparr>d_user := Some ex_eric_user\<rparr>)"
  by code_simp

lemma matchesSearch_empty: "matchesSearch lower [] d"
  by (simp add: matchesSearch_sublist toLowerCase_def)

lemma fetchDoctors_rows:
  "dl_doctors (snd (fetchDoctors w doctor_list_initial))
     = (case next_fault w of None \<Rightarrow> approved_doctors (db w) | Some m \<Rightarrow> [])"
  by (simp add: fetchDoctors_def select_approved_doctors_def doctor_list_initial_def
      split: option.splits)

lemma approved_doctors_status: "d \<in> set (approved_doctors s) \<Longrightarrow> d_status d = Approved"
  by (auto simp: approved_doctors_def embed_user_def)

text \<open>
  C3: a doctor whose status is not approved is never listed, whatever the filter; and
  with the three filters empty the list is exactly the approved rows of the doctors
  table (each with its user embedded), provided the request to the store succeeds.
\<close>

theorem list_doctors_approved:
  "(\<forall>d \<in> set (list_doctors lower w t spec loc). d_status d = Approved)
   \<and> (next_fault w = None \<longrightarrow>
        list_doctors lower w [] [] []
          = map (embed_user (db w)) (filter (\<lambda>d. d_status d = Approved) (doctors (db w))))"
proof
  show "\<forall>d \<in> set (list_doctors lower w t spec loc). d_status d = Approved"
    by (auto simp: list_doctors_def filteredDoctors_def fetchDoctors_rows
        split: option.splits dest: approved_doctors_status)
  show "next_fault w = None \<longrightarrow>
        list_doctors lower w [] [] []
          = map (embed_user (db w)) (filter (\<lambda>d. d_status d = Approved) (doctors (db w)))"
    by (simp add: list_doctors_def filteredDoctors_def fetchDoctors_rows matchesSearch_empty
        matchesSpecialty_def matchesLocation_def approved_doctors_def)
qed

theorem list_doctors_approved_witness:
  "embed_user ex_store ex_doctorA \<in> set (list_doctors sample_lower ex_world ''CARDIO'' [] [])
   \<and> d_status (embed_user ex_store ex_doctorA) = Approved
   \<and> next_fault ex_world = None
   \<and> list_doctors sample_lower ex_world [] [] [] = [embed_user ex_store ex_doctorA]"
proof -
  have 1: "embed_user ex_store ex_doctorA \<in> set (list_doctors sample_lower ex_world ''CARDIO'' [] [])"
    by code_simp
  have 2: "next_fault ex_world = None"
    by (simp add: next_fault_def ex_world_def)
  have 3: "map (embed_user (db ex_world))
             (filter (\<lambda>d. d_status d = Approved) (doctors (db ex_world)))
           = [embed_user ex_store ex_doctorA]"
    by code_simp
  from list_doctors_approved [of sample_lower ex_world "''CARDIO''" "[]" "[]"] 1 2 3
  show ?thesis by auto
qed

section \<open>The appointment list\<close>

text \<open>
  C10: with the tab \<open>all\<close> the displayed list is the fetched list; with the tab of a
  status it is the fetched rows of exactly that status, in their order.
\<close>

theorem filteredAppointments_tab:
  "filteredAppointments (st\<lparr>al_filter := All\<rparr>) = al_appointments st
   \<and> filteredAppointments (st\<lparr>al_filter := Only s\<rparr>)
       = filter (\<lambda>a. a_status a = s) (al_appointments st)
   \<and> set (filteredAppointments (st\<lparr>al_filter := Only s\<rparr>))
       = {a \<in> set (al_appointments st). a_status a = s}"
  by (simp add: filteredAppointments_def)

lemma select_doctor_id_world: "snd (select_doctor_id uid w) = advance w"
  by (simp add: select_doctor_id_def split: option.splits sum.splits)

lemma role_filter_db: "db (snd (role_filter u w)) = db w"
  by (cases "select_doctor_id (u_id u) w")
     (use select_doctor_id_world [of "u_id u" w] in
       \<open>auto simp: role_filter_def split: role.splits sum.splits\<close>)

lemma role_filter_alerts: "alerts (snd (role_filter u w)) = alerts w"
  by (cases "select_doctor_id (u_id u) w")
     (use select_doctor_id_world [of "u_id u" w] in
       \<open>auto simp: role_filter_def split: role.splits sum.splits\<close>)

lemma select_appointments_cases:
  "select_appointments q w = (Inl e, w') \<Longrightarrow> w' = advance w \<and> (\<exists>m. next_fault w = Some m \<and> e = RemoteFault m)"
  "select_appointments q w = (Inr rows, w') \<Longrightarrow>
     w' = advance w \<and> next_fault w = None \<and>
     rows = order_desc (map (embed_appointment (db w))
              (filter (\<lambda>a. list_all (\<lambda>f. satisfies f a) q) (appointments (db w))))"
  by (auto simp: select_appointments_def split: option.splits)

lemma fetchAppointments_db: "db (fst (fetchAppointments w usr st)) = db w"
proof (cases usr)
  case None
  then show ?thesis by (simp add: fetchAppointments_def)
next
  case (Some u)
  obtain q w1 where rf: "role_filter u w = (q, w1)" by (cases "role_filter u w")
  with role_filter_db [of u w] have w1: "db w1 = db w" by simp
  obtain r w2 where sel: "select_appointments q w1 = (r, w2)"
    by (cases "select_appointments q w1")
  show ?thesis
    using Some rf sel w1 select_appointments_cases [of q w1]
    by (cases r) (auto simp: fetchAppointments_def)
qed

lemma fetchAppointments_alerts: "alerts (fst (fetchAppointments w usr st)) = alerts w"
proof (cases usr)
  case None
  then show ?thesis by (simp add: fetchAppointments_def)
next
  case (Some u)
  obtain q w1 where rf: "role_filter u w = (q, w1)" by (cases "role_filter u w")
  with role_filter_alerts [of u w] have w1: "alerts w1 = alerts w" by simp
  obtain r w2 where sel: "select_appointments q w1 = (r, w2)"
    by (cases "select_appointments q w1")
  show ?thesis
    using Some rf sel w1 select_appointments_cases [of q w1]
    by (cases r) (auto simp: fetchAppointments_def)
qed

lemma newest_first_order_desc: "newest_first (order_desc xs)"
proof -
  have "sorted (map a_created_at (sort_key a_created_at xs))"
    by (rule sorted_sort_key)
  then have "sorted_wrt (\<lambda>a b. a_created_at a \<le> a_created_at b) (sort_key a_created_at xs)"
    by (simp add: sorted_map)
  then show ?thesis
    by (simp add: newest_first_def order_desc_def sorted_wrt_rev)
qed

lemma fetchAppointments_rows:
  "al_appointments (snd (fetchAppointments w usr st)) = al_appointments st
   \<or> (\<exists>u q. usr = Some u \<and> q = fst (role_filter u w) \<and>
        al_appointments (snd (fetchAppointments w usr st))
          = order_desc (map (embed_appointment (db w))
              (filter (\<lambda>a. list_all (\<lambda>f. satisfies f a) q) (appointments (db w)))))"
proof (cases usr)
  case None
  then show ?thesis by (simp add: fetchAppointments_def)
next
  case (Some u)
  obtain q w1 where rf: "role_filter u w = (q, w1)" by (cases "role_filter u w")
  with role_filter_db [of u w] have w1: "db w1 = db w" by simp
  obtain r w2 where sel: "select_appointments q w1 = (r, w2)"
    by (cases "select_appointments q w1")
  show ?thesis
    using Some rf sel w1 select_appointments_cases [of q w1]
    by (cases r) (auto simp: fetchAppointments_def)
qed

lemma fetchAppointments_keeps_order:
  "newest_first (al_appointments st) \<Longrightarrow>
   newest_first (al_appointments (snd (fetchAppointments w usr st)))"
  using fetchAppointments_rows [of w usr st] newest_first_order_desc by auto

text \<open>
  C6: the rows a user is shown are ordered by creation time, most recent first. (A
  later fetch that fails keeps the rows of the page, which are in that order too:
  \<open>fetchAppointments_keeps_order\<close>.)
\<close>

theorem listFor_newest_first:
  "sorted_wrt (\<lambda>a b. a_created_at b \<le> a_created_at a) (listFor w usr)"
proof -
  have "newest_first (al_appointments appointment_list_initial)"
    by (simp add: newest_first_def appointment_list_initial_def)
  then show ?thesis
    unfolding listFor_def using fetchAppointments_keeps_order newest_first_def by blast
qed

section \<open>Dates and times on offer\<close>

lemma available_loop_filter:
  "i \<le> 30 \<Longrightarrow>
   available_loop t i ds = ds @ filter (\<lambda>d. \<not> isWeekend d) (map (addDays t) [i ..< 30])"
proof (induction t i ds rule: available_loop.induct)
  case (1 currentDate i dates)
  show ?case
  proof (cases "i < 30")
    case True
    then have step: "[i ..< 30] = i # [i + 1 ..< 30]"
      by (simp add: upt_conv_Cons)
    from True have le: "i + 1 \<le> 30" by simp
    show ?thesis
      using True "1.IH" [OF True le]
      by (subst available_loop.simps) (simp add: step)
  next
    case False
    with "1.prems" have "i = 30" by simp
    then show ?thesis by (subst available_loop.simps) simp
  qed
qed

lemma map_addDays_upt: "map (addDays t) [0 ..< n] = [t ..< t + n]"
  by (induction n) (simp_all add: addDays_def)

lemma getAvailableDates_filter:
  "getAvailableDates t = filter (\<lambda>d. \<not> isWeekend d) [t ..< t + 30]"
  by (simp add: getAvailableDates_def available_loop_filter map_addDays_upt)

lemma getDay_mod: "getDay (t + i) = getDay (t mod 7 + i)"
proof -
  have "(t + (i + 4)) mod 7 = (t mod 7 + (i + 4)) mod 7"
    by (simp only: mod_add_left_eq)
  then show ?thesis by (simp only: getDay_def add.assoc)
qed

lemma isWeekend_mod: "isWeekend (t + i) = isWeekend (t mod 7 + i)"
  by (simp only: isWeekend_def getDay_mod [of t i])

lemma weekdays_from:
  "filter (\<lambda>d. \<not> isWeekend d) [t ..< t + 30]
     = map (addDays t) (filter (\<lambda>i. \<not> isWeekend (t mod 7 + i)) [0 ..< 30])"
proof -
  have "filter (\<lambda>d. \<not> isWeekend d) (map (addDays t) [0 ..< 30])
          = map (addDays t) (filter (\<lambda>i. \<not> isWeekend (t + i)) [0 ..< 30])"
    by (simp add: filter_map comp_def addDays_def)
  also have "filter (\<lambda>i. \<not> isWeekend (t + i)) [0 ..< 30]
          = filter (\<lambda>i. \<not> isWeekend (t mod 7 + i)) [0 ..< 30]"
    by (rule filter_cong) (simp_all only: isWeekend_mod [of t])
  finally show ?thesis by (simp only: map_addDays_upt)
qed

lemma fifteen_weekdays_all:
  "list_all (\<lambda>k. length (take 15 (filter (\<lambda>i. \<not> isWeekend (k + i)) [0 ..< 30])) = 15) [0 ..< 7]"
  by code_simp

lemma fifteen_weekdays:
  assumes "k < 7"
  shows "length (take 15 (filter (\<lambda>i. \<not> isWeekend (k + i)) [0 ..< 30])) = 15"
proof -
  from assms have "k \<in> set [0 ..< 7]" by simp
  with fifteen_weekdays_all show ?thesis
    unfolding list_all_iff by blast
qed

lemma length_offered_dates: "length (offered_dates t) = 15"
proof -
  have "t mod 7 < 7" by simp
  then have "length (take 15 (filter (\<lambda>i. \<not> isWeekend (t mod 7 + i)) [0 ..< 30])) = 15"
    by (rule fifteen_weekdays)
  then show ?thesis
    by (simp add: offered_dates_def getAvailableDates_filter weekdays_from take_map)
qed

lemma timeSlots_eq: "timeSlots = slots_by_interval"
  by (simp add: timeSlots_def slots_by_interval_def half_hours_def clock_time_def
      two_digits_def digit_def upt_rec)

text \<open>
  C9: the dates offered are the first fifteen days that are not a Saturday or Sunday
  among the thirty days starting today; there are always fifteen of them. The times
  offered are the thirteen half hours from 09:00 to 11:30 and from 14:00 to 17:00.
\<close>

theorem offered_dates_and_times:
  "offered_dates today = take 15 (filter (\<lambda>d. \<not> isWeekend d) [today ..< today + 30])
   \<and> length (offered_dates today) = 15
   \<and> set (offered_dates today) \<subseteq> {d. today \<le> d \<and> d < today + 30 \<and> \<not> isWeekend d}
   \<and> timeSlots = slots_by_interval
   \<and> length timeSlots = 13"
proof -
  have eq: "offered_dates today = take 15 (filter (\<lambda>d. \<not> isWeekend d) [today ..< today + 30])"
    by (simp add: offered_dates_def getAvailableDates_filter)
  have "set (offered_dates today) \<subseteq> set (filter (\<lambda>d. \<not> isWeekend d) [today ..< today + 30])"
    unfolding eq by (rule set_take_subset)
  then have sub: "set (offered_dates today) \<subseteq> {d. today \<le> d \<and> d < today + 30 \<and> \<not> isWeekend d}"
    by auto
  have len: "length timeSlots = 13" by (simp add: timeSlots_def)
  from eq sub len length_offered_dates [of today] timeSlots_eq show ?thesis
    by blast
qed

section \<open>A doctor's own appointments\<close>

lemma role_filter_doctor_resolved:
  "u_role u = Doctor \<Longrightarrow> next_fault w = None \<Longrightarrow>
   filter (\<lambda>d. d_user_id d = u_id u) (doctors (db w)) = [d] \<Longrightarrow>
   role_filter u w = ([DoctorIdEq (d_id d)], advance w)"
  by (simp add: role_filter_def select_doctor_id_def)

lemma role_filter_doctor_unresolved:
  "u_role u = Doctor \<Longrightarrow> next_fault w = None \<Longrightarrow>
   filter (\<lambda>d. d_user_id d = u_id u) (doctors (db w)) = [] \<Longrightarrow>
   role_filter u w = ([], advance w)"
  by (simp add: role_filter_def select_doctor_id_def)

lemma set_order_desc: "set (order_desc xs) = set xs"
  by (simp add: order_desc_def)

lemma embed_appointment_fields [simp]:
  "a_id (embed_appointment s a) = a_id a"
  "a_status (embed_appointment s a) = a_status a"
  "a_doctor_id (embed_appointment s a) = a_doctor_id a"
  "a_patient_id (embed_appointment s a) = a_patient_id a"
  "a_created_at (embed_appointment s a) = a_created_at a"
  by (simp_all add: embed_appointment_def)

lemma listFor_doctor_resolved:
  assumes "u_role u = Doctor" and "next_fault w = None"
    and "filter (\<lambda>d. d_user_id d = u_id u) (doctors (db w)) = [d]"
    and "a \<in> set (listFor w (Some u))"
  shows "a_doctor_id a = d_id d"
proof -
  have rf: "role_filter u w = ([DoctorIdEq (d_id d)], advance w)"
    using assms(1-3) by (rule role_filter_doctor_resolved)
  show ?thesis
  proof (cases "next_fault (advance w)")
    case None
    with rf assms(4) show ?thesis
      by (auto simp: listFor_def fetchAppointments_def select_appointments_def
          set_order_desc)
  next
    case (Some m)
    with rf assms(4) show ?thesis
      by (simp add: listFor_def fetchAppointments_def select_appointments_def
          appointment_list_initial_def)
  qed
qed

lemma listFor_doctor_unresolved:
  assumes "u_role u = Doctor" and "next_fault w = None"
    and "filter (\<lambda>d. d_user_id d = u_id u) (doctors (db w)) = []"
    and "next_fault (advance w) = None"
  shows "listFor w (Some u) = order_desc (map (embed_appointment (db w)) (appointments (db w)))"
proof -
  have rf: "role_filter u w = ([], advance w)"
    using assms(1-3) by (rule role_filter_doctor_unresolved)
  with assms(4) show ?thesis
    by (simp add: listFor_def fetchAppointments_def select_appointments_def)
qed

text \<open>
  C2: a doctor whose record is resolved is shown only the appointments of that record
  (\<open>listFor_doctor_resolved\<close>). For a doctor without a record the claim asks for an
  empty list; the code adds no filter then and lists the appointments of everybody
  (\<open>listFor_doctor_unresolved\<close>). Here the user \<open>u-new\<close> has the role doctor and no
  row in the doctors table, and is shown both appointments of the store, which belong
  to the doctors \<open>d-B\<close> and \<open>d-A\<close>.
\<close>

theorem doctor_without_record_lists_all:
  "u_role ex_unlisted_doctor_user = Doctor
   \<and> filter (\<lambda>d. d_user_id d = u_id ex_unlisted_doctor_user) (doctors (db ex_world)) = []
   \<and> map a_id (listFor ex_world (Some ex_unlisted_doctor_user)) = [''a-2'', ''a-1'']
   \<and> map a_doctor_id (listFor ex_world (Some ex_unlisted_doctor_user)) = [''d-B'', ''d-A'']"
  by code_simp

section \<open>Updating the status\<close>

lemma update_status_ok:
  "next_fault w = None \<Longrightarrow>
   update_status i t w =
     (Inr (), (advance w)\<lparr>db := (db w)\<lparr>appointments := map (set_status i t) (appointments (db w))\<rparr>\<rparr>)"
  by (simp add: update_status_def)

lemma update_status_fault:
  "next_fault w = Some m \<Longrightarrow> update_status i t w = (Inl (RemoteFault m), advance w)"
  by (simp add: update_status_def)

lemma updateAppointmentStatus_ok:
  "next_fault w = None \<Longrightarrow>
   appointments (db (fst (updateAppointmentStatus w usr st i t)))
     = map (set_status i t) (appointments (db w))"
  by (simp add: updateAppointmentStatus_def update_status_ok fetchAppointments_db)

lemma updateAppointmentStatus_ok_alerts:
  "next_fault w = None \<Longrightarrow>
   alerts (fst (updateAppointmentStatus w usr st i t)) = alerts w"
  by (simp add: updateAppointmentStatus_def update_status_ok fetchAppointments_alerts)

lemma updateAppointmentStatus_fault:
  "next_fault w = Some m \<Longrightarrow>
   updateAppointmentStatus w usr st i t =
     (alert ''Failed to update appointment status''
        (console_error ''Error updating appointment:'' (RemoteFault m) (advance w)), st)"
  by (simp add: updateAppointmentStatus_def update_status_fault)

lemma actions_legal: "t \<in> set (actions r s) \<Longrightarrow> legal s t"
  by (auto simp: actions_def legal_def split: if_splits)

lemma legal_offered:
  "legal s t \<longleftrightarrow> t \<in> set (actions (Some Doctor) s) \<or> t \<in> set (actions (Some Patient) s)"
  by (cases s; cases t) (simp_all add: actions_def legal_def)

text \<open>
  C1, as the code has it: \<^verbatim>\<open>updateAppointmentStatus\<close> does not look at the current
  status. Whenever the store accepts the request, every appointment with the given id
  gets the requested status and no alert is raised; the operation fails only when the
  store request fails,
  with the alert \<^verbatim>\<open>Failed to update appointment status\<close> and the store unchanged. The
  pairs of the transition table are kept by the callers: the buttons rendered for a
  displayed status pass only targets that are legal from it, and every legal pair is
  offered to the doctor or to the patient.
\<close>

theorem updateAppointmentStatus_unchecked:
  "(next_fault w = None \<longrightarrow>
      appointments (db (fst (updateAppointmentStatus w usr st i t)))
        = map (set_status i t) (appointments (db w))
      \<and> alerts (fst (updateAppointmentStatus w usr st i t)) = alerts w)
   \<and> (\<forall>m. next_fault w = Some m \<longrightarrow>
        updateAppointmentStatus w usr st i t =
          (alert ''Failed to update appointment status''
             (console_error ''Error updating appointment:'' (RemoteFault m) (advance w)), st)
        \<and> db (fst (updateAppointmentStatus w usr st i t)) = db w)
   \<and> set (actions r s) \<subseteq> {t'. legal s t'}
   \<and> (legal s t \<longleftrightarrow>
        t \<in> set (actions (Some Doctor) s) \<or> t \<in> set (actions (Some Patient) s))"
proof -
  have "set (actions r s) \<subseteq> {t'. legal s t'}"
    using actions_legal by blast
  then show ?thesis
    using updateAppointmentStatus_ok [of w usr st i t]
      updateAppointmentStatus_ok_alerts [of w usr st i t]
      updateAppointmentStatus_fault [of w _ usr st i t] legal_offered [of s t]
    by simp
qed

theorem updateAppointmentStatus_unchecked_witness:
  "next_fault ex_world = None
   \<and> appointments (db (fst (updateAppointmentStatus ex_world (Some ex_patient)
         appointment_list_initial ''a-2'' Confirmed)))
       = map (set_status ''a-2'' Confirmed) (appointments (db ex_world))
   \<and> alerts (fst (updateAppointmentStatus ex_world (Some ex_patient)
         appointment_list_initial ''a-2'' Confirmed)) = alerts ex_world
   \<and> next_fault ex_world_failing = Some ''network unreachable''
   \<and> db (fst (updateAppointmentStatus ex_world_failing (Some ex_patient)
         appointment_list_initial ''a-1'' Cancelled)) = db ex_world_failing
   \<and> Cancelled \<in> set (actions (Some Patient) Pending)
   \<and> legal Pending Cancelled"
proof -
  have ok: "next_fault ex_world = None" by code_simp
  have bad: "next_fault ex_world_failing = Some ''network unreachable''" by code_simp
  have button: "Cancelled \<in> set (actions (Some Patient) Pending)" by code_simp
  from updateAppointmentStatus_unchecked
         [of ex_world "Some ex_patient" appointment_list_initial "''a-2''" Confirmed
             "Some Patient" Pending]
       updateAppointmentStatus_unchecked
         [of ex_world_failing "Some ex_patient" appointment_list_initial "''a-1''" Cancelled
             "Some Patient" Pending]
       ok bad button
  show ?thesis by auto
qed

text \<open>
  C1 as stated fails: the appointment \<open>a-2\<close> is completed, completed to pending is
  not in the table, and yet the update is stored and nothing is reported.
\<close>

theorem updateAppointmentStatus_counterexample:
  "status_of ''a-2'' ex_world = Some Completed
   \<and> \<not> legal Completed Pending
   \<and> status_of ''a-2''
        (fst (updateAppointmentStatus ex_world (Some ex_patient) appointment_list_initial
               ''a-2'' Pending)) = Some Pending
   \<and> alerts (fst (updateAppointmentStatus ex_world (Some ex_patient) appointment_list_initial
               ''a-2'' Pending)) = []"
  by code_simp

section \<open>Booking an appointment\<close>

lemma single_not_one: "length xs \<noteq> 1 \<Longrightarrow> single xs = Inl NotSingleRow"
  by (cases xs rule: single.cases) auto

lemma fetchDoctor_found:
  "next_fault w = None \<Longrightarrow>
   filter (\<lambda>d. d_id d = i \<and> d_status d = Approved) (doctors (db w)) = [d] \<Longrightarrow>
   fetchDoctor w i st = (advance w, st\<lparr>b_doctor := Some (embed_user (db w) d), b_loading := False\<rparr>)"
  by (simp add: fetchDoctor_def select_approved_doctor_def)

lemma fetchDoctor_not_found:
  "next_fault w = None \<Longrightarrow>
   length (filter (\<lambda>d. d_id d = i \<and> d_status d = Approved) (doctors (db w))) \<noteq> 1 \<Longrightarrow>
   fetchDoctor w i st =
     (console_error ''Error fetching doctor:'' NotSingleRow (advance w),
      st\<lparr>b_location := ''/doctors'', b_loading := False\<rparr>)"
  by (simp add: fetchDoctor_def select_approved_doctor_def single_not_one)

lemma fetchDoctor_fault:
  "next_fault w = Some m \<Longrightarrow>
   fetchDoctor w i st =
     (console_error ''Error fetching doctor:'' (RemoteFault m) (advance w),
      st\<lparr>b_location := ''/doctors'', b_loading := False\<rparr>)"
  by (simp add: fetchDoctor_def select_approved_doctor_def)

lemma fetchDoctor_db: "db (fst (fetchDoctor w i st)) = db w"
  by (cases "next_fault w")
     (auto simp: fetchDoctor_def select_approved_doctor_def split: sum.splits)

lemma fetchDoctor_none:
  "length (filter (\<lambda>d. d_id d = i \<and> d_status d = Approved) (doctors (db w))) \<noteq> 1 \<Longrightarrow>
   b_doctor st = None \<Longrightarrow> b_doctor (snd (fetchDoctor w i st)) = None"
  by (cases "next_fault w") (simp_all add: fetchDoctor_not_found fetchDoctor_fault)

lemma create_rejected:
  assumes "length (filter (\<lambda>d. d_id d = i \<and> d_status d = Approved) (doctors (db w))) \<noteq> 1"
  shows "create w usr i form = mount_booking w i"
    and "db (fst (create w usr i form)) = db w"
    and "b_doctor (snd (create w usr i form)) = None"
proof -
  have none: "b_doctor (snd (mount_booking w i)) = None"
    using assms by (simp add: mount_booking_def fetchDoctor_none book_initial_def)
  then show 1: "create w usr i form = mount_booking w i"
    by (cases "mount_booking w i") (simp add: create_def)
  show "db (fst (create w usr i form)) = db w"
    unfolding 1 by (simp add: mount_booking_def fetchDoctor_db)
  show "b_doctor (snd (create w usr i form)) = None"
    unfolding 1 by (rule none)
qed

lemma insert_appointment_ok:
  "next_fault w = None \<Longrightarrow> fst (next_default w) \<notin> set (map a_id (appointments (db w))) \<Longrightarrow>
   insert_appointment row w =
     (Inr (),
      (advance w)\<lparr>defaults := tl (defaults w),
        db := (db w)\<lparr>appointments := appointments (db w)
                 @ [row\<lparr>a_id := fst (next_default w), a_created_at := snd (next_default w)\<rparr>]\<rparr>\<rparr>)"
  by (simp add: insert_appointment_def Let_def)

lemma insert_appointment_fault:
  "next_fault w = Some m \<Longrightarrow> insert_appointment row w = (Inl (RemoteFault m), advance w)"
  by (simp add: insert_appointment_def)

lemma next_default_advance [simp]: "next_default (advance w) = next_default w"
  by (simp add: next_default_def)

lemma create_accepted:
  assumes "i \<noteq> []" and "next_fault w = None" and "next_fault (advance w) = None"
    and "filter (\<lambda>d. d_id d = i \<and> d_status d = Approved) (doctors (db w)) = [d]"
    and "fst (next_default w) \<notin> set (map a_id (appointments (db w)))"
  shows "appointments (db (fst (create w (Some u) i form)))
           = appointments (db w)
             @ [(new_appointment u (embed_user (db w) d) form)
                  \<lparr>a_id := fst (next_default w), a_created_at := snd (next_default w)\<rparr>]"
proof -
  have m: "mount_booking w i =
      (advance w, (book_initial i)\<lparr>b_doctor := Some (embed_user (db w) d), b_loading := False\<rparr>)"
    using assms(1,2,4) by (simp add: mount_booking_def fetchDoctor_found)
  have fresh: "fst (next_default (advance w)) \<notin> set (map a_id (appointments (db (advance w))))"
    using assms(5) by simp
  show ?thesis
    unfolding create_def m
    by (simp add: onSubmit_def insert_appointment_ok [OF assms(3) fresh])
qed

lemma embed_user_id [simp]: "d_id (embed_user s d) = d_id d"
  by (simp add: embed_user_def)

lemma filter_singleton_id:
  "filter (\<lambda>d. d_id d = i \<and> d_status d = Approved) ds = [d] \<Longrightarrow> d_id d = i"
proof -
  assume "filter (\<lambda>d. d_id d = i \<and> d_status d = Approved) ds = [d]"
  then have "d \<in> set (filter (\<lambda>d. d_id d = i \<and> d_status d = Approved) ds)" by simp
  then show ?thesis by simp
qed

text \<open>
  C5: booking with the id of an approved doctor, the store answering both requests and
  assigning an unused id, appends one appointment to the table: its status is
  pending, its patient is the user, its doctor is the one asked for, and date, time
  and notes are those of the form. When the id is not that of exactly one approved
  doctor, the booking is refused: the table of appointments (the whole store) is as
  before and the page holds no doctor; in the code the refusal is the error of
  \<^verbatim>\<open>.single()\<close> caught in \<^verbatim>\<open>fetchDoctor\<close>, which logs it and leaves for \<^verbatim>\<open>/doctors\<close>,
  so that the form is never rendered.
\<close>

theorem create_pending_or_rejected:
  "(doctorId \<noteq> [] \<and> next_fault w = None \<and> next_fault (advance w) = None
      \<and> filter (\<lambda>d. d_id d = doctorId \<and> d_status d = Approved) (doctors (db w)) = [d]
      \<and> fst (next_default w) \<notin> set (map a_id (appointments (db w)))
    \<longrightarrow> (\<exists>a. appointments (db (fst (create w (Some u) doctorId form)))
                 = appointments (db w) @ [a]
             \<and> a_status a = Pending \<and> a_patient_id a = u_id u \<and> a_doctor_id a = doctorId
             \<and> a_appointment_date a = appointment_date form
             \<and> a_appointment_time a = appointment_time form
             \<and> a_notes a = form_notes form \<and> a_id a = fst (next_default w)))
   \<and> (length (filter (\<lambda>d. d_id d = doctorId \<and> d_status d = Approved) (doctors (db w))) \<noteq> 1
    \<longrightarrow> db (fst (create w usr doctorId form)) = db w
        \<and> alerts (fst (create w usr doctorId form)) = alerts w
        \<and> b_doctor (snd (create w usr doctorId form)) = None
        \<and> (doctorId \<noteq> [] \<and> next_fault w = None \<longrightarrow>
             create w usr doctorId form =
               (console_error ''Error fetching doctor:'' NotSingleRow (advance w),
                (book_initial doctorId)\<lparr>b_location := ''/doctors'', b_loading := False\<rparr>)))"
proof (intro conjI impI)
  assume a: "doctorId \<noteq> [] \<and> next_fault w = None \<and> next_fault (advance w) = None
      \<and> filter (\<lambda>d. d_id d = doctorId \<and> d_status d = Approved) (doctors (db w)) = [d]
      \<and> fst (next_default w) \<notin> set (map a_id (appointments (db w)))"
  let ?a = "(new_appointment u (embed_user (db w) d) form)
              \<lparr>a_id := fst (next_default w), a_created_at := snd (next_default w)\<rparr>"
  from a have "appointments (db (fst (create w (Some u) doctorId form))) = appointments (db w) @ [?a]"
    by (intro create_accepted) simp_all
  moreover from a have "d_id d = doctorId" by (auto dest: filter_singleton_id)
  ultimately show "\<exists>a. appointments (db (fst (create w (Some u) doctorId form)))
                 = appointments (db w) @ [a]
             \<and> a_status a = Pending \<and> a_patient_id a = u_id u \<and> a_doctor_id a = doctorId
             \<and> a_appointment_date a = appointment_date form
             \<and> a_appointment_time a = appointment_time form
             \<and> a_notes a = form_notes form \<and> a_id a = fst (next_default w)"
    by (intro exI [of _ ?a]) (simp add: new_appointment_def)
next
  assume n: "length (filter (\<lambda>d. d_id d = doctorId \<and> d_status d = Approved) (doctors (db w))) \<noteq> 1"
  show "db (fst (create w usr doctorId form)) = db w"
    using n by (rule create_rejected(2))
  show "b_doctor (snd (create w usr doctorId form)) = None"
    using n by (rule create_rejected(3))
  show "alerts (fst (create w usr doctorId form)) = alerts w"
    unfolding create_rejected(1) [OF n]
    by (cases "next_fault w")
       (simp_all add: mount_booking_def fetchDoctor_not_found [OF _ n] fetchDoctor_fault)
  assume "doctorId \<noteq> [] \<and> next_fault w = None"
  then show "create w usr doctorId form =
               (console_error ''Error fetching doctor:'' NotSingleRow (advance w),
                (book_initial doctorId)\<lparr>b_location := ''/doctors'', b_loading := False\<rparr>)"
    unfolding create_rejected(1) [OF n]
    by (simp add: mount_booking_def fetchDoctor_not_found [OF _ n])
qed

theorem create_pending_or_rejected_witness:
  "''d-A'' \<noteq> [] \<and> next_fault ex_world = None \<and> next_fault (advance ex_world) = None
   \<and> filter (\<lambda>d. d_id d = ''d-A'' \<and> d_status d = Approved) (doctors (db ex_world)) = [ex_doctorA]
   \<and> fst (next_default ex_world) \<notin> set (map a_id (appointments (db ex_world)))
   \<and> a_status (last (appointments (db (fst (create ex_world (Some ex_patient) ''d-A'' ex_form)))))
       = Pending
   \<and> length (appointments (db (fst (create ex_world (Some ex_patient) ''d-A'' ex_form)))) = 3
   \<and> length (filter (\<lambda>d. d_id d = ''d-B'' \<and> d_status d = Approved) (doctors (db ex_world))) \<noteq> 1
   \<and> db (fst (create ex_world (Some ex_patient) ''d-B'' ex_form)) = db ex_world"
proof -
  have h: "''d-A'' \<noteq> [] \<and> next_fault ex_world = None \<and> next_fault (advance ex_world) = None
   \<and> filter (\<lambda>d. d_id d = ''d-A'' \<and> d_status d = Approved) (doctors (db ex_world)) = [ex_doctorA]
   \<and> fst (next_default ex_world) \<notin> set (map a_id (appointments (db ex_world)))"
    by code_simp
  have n: "length (filter (\<lambda>d. d_id d = ''d-B'' \<and> d_status d = Approved) (doctors (db ex_world))) \<noteq> 1"
    by code_simp
  have two: "length (appointments (db ex_world)) = 2" by code_simp
  from create_pending_or_rejected
         [where doctorId = "''d-A''" and w = ex_world and d = ex_doctorA and u = ex_patient
            and form = ex_form] h
  obtain a where a: "appointments (db (fst (create ex_world (Some ex_patient) ''d-A'' ex_form)))
                 = appointments (db ex_world) @ [a]" "a_status a = Pending"
    by blast
  from create_pending_or_rejected
         [where doctorId = "''d-B''" and w = ex_world and usr = "Some ex_patient"
            and form = ex_form] n
  have r: "db (fst (create ex_world (Some ex_patient) ''d-B'' ex_form)) = db ex_world"
    by blast
  from h n a r two show ?thesis by simp
qed

section \<open>Failing store calls\<close>

lemma onSubmit_fault:
  "next_fault w = Some m \<Longrightarrow> b_doctor st = Some d \<Longrightarrow>
   onSubmit w (Some u) st form =
     (alert (if m = [] then ''Failed to book appointment'' else m)
        (console_error ''Error booking appointment:'' (RemoteFault m) (advance w)),
      st\<lparr>submitting := False\<rparr>)"
  by (simp add: onSubmit_def insert_appointment_fault)

lemma fetchAppointments_fault:
  "next_fault w = Some m \<Longrightarrow> u_role u \<noteq> Doctor \<Longrightarrow>
   fetchAppointments w (Some u) st =
     (console_error ''Error fetching appointments:'' (RemoteFault m) (advance w),
      st\<lparr>al_loading := False\<rparr>)"
  by (cases "u_role u")
     (simp_all add: fetchAppointments_def role_filter_def select_appointments_def)

lemma role_filter_world:
  "snd (role_filter u w) = (if u_role u = Doctor then advance w else w)"
  by (cases "select_doctor_id (u_id u) w")
     (use select_doctor_id_world [of "u_id u" w] in
       \<open>auto simp: role_filter_def split: role.splits sum.splits\<close>)

lemma fetchAppointments_query_fault:
  assumes "next_fault (snd (role_filter u w)) = Some m"
  shows "fetchAppointments w (Some u) st =
           (console_error ''Error fetching appointments:'' (RemoteFault m)
              (advance (snd (role_filter u w))),
            st\<lparr>al_loading := False\<rparr>)"
proof -
  obtain q w1 where rf: "role_filter u w = (q, w1)" by (cases "role_filter u w")
  with assms have "next_fault w1 = Some m" by simp
  then have "select_appointments q w1 = (Inl (RemoteFault m), advance w1)"
    by (simp add: select_appointments_def)
  with rf show ?thesis by (simp add: fetchAppointments_def)
qed

lemma fetchDoctors_fault:
  "next_fault w = Some m \<Longrightarrow>
   fetchDoctors w st =
     (console_error ''Error fetching doctors:'' (RemoteFault m) (advance w),
      st\<lparr>dl_loading := False\<rparr>)"
  by (simp add: fetchDoctors_def select_approved_doctors_def)

text \<open>
  C8, as the code has it. When the store request of an operation fails (for
  \<^verbatim>\<open>fetchAppointments\<close>: the query for the appointments), the error is caught inside the
  operation, the request is issued exactly once (no retry), and the store and the
  rows held by the page are unchanged. The two writing operations,
  \<^verbatim>\<open>updateAppointmentStatus\<close> and the booking \<^verbatim>\<open>onSubmit\<close>, raise exactly one alert. The
  reading operations \<^verbatim>\<open>fetchAppointments\<close>, \<^verbatim>\<open>fetchDoctors\<close> and \<^verbatim>\<open>fetchDoctor\<close> raise
  none: they log the error (\<^verbatim>\<open>fetchDoctor\<close> also leaves for \<^verbatim>\<open>/doctors\<close>). For a doctor
  the query is the second request, after the lookup of the doctor's record; what a
  failure of that lookup leads to is not part of this statement.
\<close>

theorem store_failure_handling:
  "(next_fault w = Some m \<longrightarrow>
      updateAppointmentStatus w usr st i t =
        (alert ''Failed to update appointment status''
           (console_error ''Error updating appointment:'' (RemoteFault m) (advance w)), st)
      \<and> alerts (fst (updateAppointmentStatus w usr st i t))
           = alerts w @ [''Failed to update appointment status'']
      \<and> requests (fst (updateAppointmentStatus w usr st i t)) = Suc (requests w)
      \<and> db (fst (updateAppointmentStatus w usr st i t)) = db w
      \<and> (b_doctor bst = Some d \<longrightarrow>
            onSubmit w (Some p) bst form =
              (alert (if m = [] then ''Failed to book appointment'' else m)
                 (console_error ''Error booking appointment:'' (RemoteFault m) (advance w)),
               bst\<lparr>submitting := False\<rparr>)
            \<and> alerts (fst (onSubmit w (Some p) bst form))
                = alerts w @ [if m = [] then ''Failed to book appointment'' else m]
            \<and> requests (fst (onSubmit w (Some p) bst form)) = Suc (requests w)
            \<and> db (fst (onSubmit w (Some p) bst form)) = db w)
      \<and> fetchDoctors w dst =
           (console_error ''Error fetching doctors:'' (RemoteFault m) (advance w),
            dst\<lparr>dl_loading := False\<rparr>)
      \<and> fetchDoctor w k bst =
           (console_error ''Error fetching doctor:'' (RemoteFault m) (advance w),
            bst\<lparr>b_location := ''/doctors'', b_loading := False\<rparr>))
   \<and> (next_fault (snd (role_filter u w)) = Some m \<longrightarrow>
      fetchAppointments w (Some u) st =
        (console_error ''Error fetching appointments:'' (RemoteFault m)
           (advance (snd (role_filter u w))),
         st\<lparr>al_loading := False\<rparr>)
      \<and> alerts (fst (fetchAppointments w (Some u) st)) = alerts w
      \<and> logs (fst (fetchAppointments w (Some u) st))
           = logs w @ [(''Error fetching appointments:'', RemoteFault m)]
      \<and> db (fst (fetchAppointments w (Some u) st)) = db w
      \<and> al_appointments (snd (fetchAppointments w (Some u) st)) = al_appointments st
      \<and> requests (fst (fetchAppointments w (Some u) st))
           = (if u_role u = Doctor then requests w + 2 else requests w + 1))"
proof (intro conjI impI)
  assume f: "next_fault (snd (role_filter u w)) = Some m"
  note eq = fetchAppointments_query_fault [OF f, of st]
  show "fetchAppointments w (Some u) st =
        (console_error ''Error fetching appointments:'' (RemoteFault m)
           (advance (snd (role_filter u w))),
         st\<lparr>al_loading := False\<rparr>)"
    by (rule eq)
  show "alerts (fst (fetchAppointments w (Some u) st)) = alerts w"
    by (rule fetchAppointments_alerts)
  show "db (fst (fetchAppointments w (Some u) st)) = db w"
    by (rule fetchAppointments_db)
  show "al_appointments (snd (fetchAppointments w (Some u) st)) = al_appointments st"
    unfolding eq by simp
  show "logs (fst (fetchAppointments w (Some u) st))
           = logs w @ [(''Error fetching appointments:'', RemoteFault m)]"
    unfolding eq by (simp add: role_filter_world)
  show "requests (fst (fetchAppointments w (Some u) st))
           = (if u_role u = Doctor then requests w + 2 else requests w + 1)"
    unfolding eq by (simp add: role_filter_world)
qed (simp_all add: updateAppointmentStatus_fault onSubmit_fault fetchDoctors_fault
      fetchDoctor_fault)

theorem store_failure_handling_witness:
  "next_fault ex_world_failing = Some ''network unreachable''
   \<and> alerts (fst (updateAppointmentStatus ex_world_failing (Some ex_patient)
         appointment_list_initial ''a-1'' Cancelled)) = [''Failed to update appointment status'']
   \<and> requests (fst (updateAppointmentStatus ex_world_failing (Some ex_patient)
         appointment_list_initial ''a-1'' Cancelled)) = 1
   \<and> db (fst (updateAppointmentStatus ex_world_failing (Some ex_patient)
         appointment_list_initial ''a-1'' Cancelled)) = ex_store
   \<and> b_doctor ((book_initial ''d-A'')\<lparr>b_doctor := Some ex_doctorA\<rparr>) = Some ex_doctorA
   \<and> alerts (fst (onSubmit ex_world_failing (Some ex_patient)
         ((book_initial ''d-A'')\<lparr>b_doctor := Some ex_doctorA\<rparr>) ex_form))
       = [''network unreachable'']
   \<and> next_fault (snd (role_filter ex_doctor_user ex_world_query_failing))
       = Some ''network unreachable''
   \<and> alerts (fst (fetchAppointments ex_world_query_failing (Some ex_doctor_user)
         appointment_list_initial)) = []
   \<and> requests (fst (fetchAppointments ex_world_query_failing (Some ex_doctor_user)
         appointment_list_initial)) = 2
   \<and> al_appointments (snd (fetchAppointments ex_world_query_failing (Some ex_doctor_user)
         appointment_list_initial)) = []"
proof -
  have h: "next_fault ex_world_failing = Some ''network unreachable''" by code_simp
  have q: "next_fault (snd (role_filter ex_doctor_user ex_world_query_failing))
       = Some ''network unreachable''"
    by code_simp
  have b: "b_doctor ((book_initial ''d-A'')\<lparr>b_doctor := Some ex_doctorA\<rparr>) = Some ex_doctorA"
    by simp
  have r: "u_role ex_doctor_user = Doctor" by (simp add: ex_doctor_user_def)
  have w: "alerts ex_world_failing = []" "requests ex_world_failing = 0"
      "db ex_world_failing = ex_store"
      "alerts ex_world_query_failing = []" "requests ex_world_query_failing = 0"
    by (simp_all add: ex_world_failing_def ex_world_query_failing_def ex_world_def)
  have i: "al_appointments appointment_list_initial = []"
    by (simp add: appointment_list_initial_def)
  from store_failure_handling
         [where w = ex_world_failing and m = "''network unreachable''"
            and usr = "Some ex_patient" and st = appointment_list_initial
            and i = "''a-1''" and t = Cancelled and p = ex_patient and form = ex_form
            and bst = "(book_initial ''d-A'')\<lparr>b_doctor := Some ex_doctorA\<rparr>"
            and d = ex_doctorA] h b w
  have 1: "alerts (fst (updateAppointmentStatus ex_world_failing (Some ex_patient)
         appointment_list_initial ''a-1'' Cancelled)) = [''Failed to update appointment status'']"
    "requests (fst (updateAppointmentStatus ex_world_failing (Some ex_patient)
         appointment_list_initial ''a-1'' Cancelled)) = 1"
    "db (fst (updateAppointmentStatus ex_world_failing (Some ex_patient)
         appointment_list_initial ''a-1'' Cancelled)) = ex_store"
    "alerts (fst (onSubmit ex_world_failing (Some ex_patient)
         ((book_initial ''d-A'')\<lparr>b_doctor := Some ex_doctorA\<rparr>) ex_form))
       = [''network unreachable'']"
    by simp_all
  note query =
    store_failure_handling
      [where w = ex_world_query_failing and m = "''network unreachable''"
         and u = ex_doctor_user and st = appointment_list_initial,
       THEN conjunct2, THEN mp, OF q]
  from query have "alerts (fst (fetchAppointments ex_world_query_failing (Some ex_doctor_user)
         appointment_list_initial)) = alerts ex_world_query_failing"
    by blast
  with w have 2: "alerts (fst (fetchAppointments ex_world_query_failing (Some ex_doctor_user)
         appointment_list_initial)) = []"
    by simp
  from query have "requests (fst (fetchAppointments ex_world_query_failing (Some ex_doctor_user)
         appointment_list_initial))
      = (if u_role ex_doctor_user = Doctor then requests ex_world_query_failing + 2
         else requests ex_world_query_failing + 1)"
    by blast
  with r w have 3: "requests (fst (fetchAppointments ex_world_query_failing (Some ex_doctor_user)
         appointment_list_initial)) = 2"
    by simp
  from query have "al_appointments (snd (fetchAppointments ex_world_query_failing
         (Some ex_doctor_user) appointment_list_initial))
      = al_appointments appointment_list_initial"
    by blast
  with i have 4: "al_appointments (snd (fetchAppointments ex_world_query_failing
         (Some ex_doctor_user) appointment_list_initial)) = []"
    by simp
  from h b q 1 2 3 4 show ?thesis by blast
qed

text \<open>
  C8 as stated fails for the reading operations: the request of \<^verbatim>\<open>fetchAppointments\<close>
  fails, the error is logged, and no message is shown to the user.
\<close>

theorem store_failure_counterexample:
  "next_fault ex_world_failing = Some ''network unreachable''
   \<and> alerts (fst (fetchAppointments ex_world_failing (Some ex_patient) appointment_list_initial)) = []
   \<and> logs (fst (fetchAppointments ex_world_failing (Some ex_patient) appointment_list_initial))
       = [(''Error fetching appointments:'', RemoteFault ''network unreachable'')]"
  by code_simp

section \<open>Status changes over runs of several pages\<close>

lemma status_of_row_status: "status_of k w = row_status k (appointments (db w))"
  by (simp add: status_of_def row_status_def)

lemma row_status_member:
  "distinct (map a_id xs) \<Longrightarrow> a \<in> set xs \<Longrightarrow> row_status (a_id a) xs = Some (a_status a)"
  by (induction xs) (auto simp: row_status_def)

lemma row_status_Some_iff: "(\<exists>x. row_status k xs = Some x) \<longleftrightarrow> k \<in> set (map a_id xs)"
  by (induction xs) (auto simp: row_status_def)

lemma row_status_append:
  "k \<in> set (map a_id xs) \<Longrightarrow> row_status k (xs @ ys) = row_status k xs"
  by (induction xs) (auto simp: row_status_def)

lemma row_status_set_status:
  "row_status k (map (set_status i t) xs)
     = (if k = i then map_option (\<lambda>x. t) (row_status k xs) else row_status k xs)"
  by (induction xs) (auto simp: row_status_def set_status_def)

lemma ids_set_status: "map a_id (map (set_status i t) xs) = map a_id xs"
  by (induction xs) (simp_all add: set_status_def)

lemma consistent_same_db:
  "db w' = db w \<Longrightarrow> consistent (w', ps) = consistent (w, ps)"
  by (simp add: consistent_def status_of_def)

lemma from_store_select:
  "from_store w (order_desc (map (embed_appointment (db w)) (filter P (appointments (db w)))))"
  unfolding from_store_def set_order_desc
proof
  fix v
  assume "v \<in> set (map (embed_appointment (db w)) (filter P (appointments (db w))))"
  then obtain a where "a \<in> set (appointments (db w))" "v = embed_appointment (db w) a"
    by auto
  then show "\<exists>a \<in> set (appointments (db w)). a_id v = a_id a \<and> a_status v = a_status a"
    by (intro bexI [of _ a]) simp_all
qed

lemma fetchAppointments_from_store:
  "al_appointments (snd (fetchAppointments w usr st)) = al_appointments st
   \<or> from_store w (al_appointments (snd (fetchAppointments w usr st)))"
  using fetchAppointments_rows [of w usr st] from_store_select [of w]
  by metis

lemma from_store_consistent:
  assumes "distinct (map a_id (appointments (db w)))" and "from_store w rows" and "v \<in> set rows"
  shows "a_id v \<in> set (map a_id (appointments (db w)))"
    and "status_of (a_id v) w = Some Pending \<Longrightarrow> a_status v = Pending"
proof -
  from assms(2,3) obtain a where a: "a \<in> set (appointments (db w))" "a_id v = a_id a"
      "a_status v = a_status a"
    by (auto simp: from_store_def)
  then show "a_id v \<in> set (map a_id (appointments (db w)))" by auto
  from a assms(1) have "status_of (a_id v) w = Some (a_status v)"
    by (simp add: status_of_row_status row_status_member)
  then show "status_of (a_id v) w = Some Pending \<Longrightarrow> a_status v = Pending" by simp
qed

lemma consistent_page:
  assumes "consistent (w, ps)" and "j < length ps"
    and "al_appointments st' = al_appointments (snd (ps ! j)) \<or> from_store w (al_appointments st')"
  shows "consistent (w, ps[j := (u, st')])"
proof -
  have d: "distinct (map a_id (appointments (db w)))"
    using assms(1) by (simp add: consistent_def)
  have old: "\<And>p v. p \<in> set ps \<Longrightarrow> v \<in> set (al_appointments (snd p)) \<Longrightarrow>
      a_id v \<in> set (map a_id (appointments (db w)))
      \<and> (status_of (a_id v) w = Some Pending \<longrightarrow> a_status v = Pending)"
    using assms(1) by (simp add: consistent_def)
  have new: "\<And>v. v \<in> set (al_appointments st') \<Longrightarrow>
      a_id v \<in> set (map a_id (appointments (db w)))
      \<and> (status_of (a_id v) w = Some Pending \<longrightarrow> a_status v = Pending)"
  proof -
    fix v assume v: "v \<in> set (al_appointments st')"
    from assms(3) show "a_id v \<in> set (map a_id (appointments (db w)))
      \<and> (status_of (a_id v) w = Some Pending \<longrightarrow> a_status v = Pending)"
    proof
      assume "al_appointments st' = al_appointments (snd (ps ! j))"
      with v assms(2) old [of "ps ! j" v] show ?thesis by simp
    next
      assume "from_store w (al_appointments st')"
      with d v from_store_consistent [of w "al_appointments st'" v] show ?thesis by blast
    qed
  qed
  show ?thesis
    unfolding consistent_def
  proof (intro conjI ballI)
    show "distinct (map a_id (appointments (db (fst (w, ps[j := (u, st')])))))"
      using d by simp
  next
    fix p v
    assume p: "p \<in> set (snd (w, ps[j := (u, st')]))" and v: "v \<in> set (al_appointments (snd p))"
    from p have "p = (u, st') \<or> p \<in> set ps"
      using set_update_subset_insert [of ps j "(u, st')"] by auto
    then have "a_id v \<in> set (map a_id (appointments (db w)))
      \<and> (status_of (a_id v) w = Some Pending \<longrightarrow> a_status v = Pending)"
    proof
      assume "p = (u, st')"
      with v have "v \<in> set (al_appointments st')" by simp
      then show ?thesis by (rule new)
    next
      assume "p \<in> set ps"
      then show ?thesis using v by (rule old)
    qed
    then show "a_id v \<in> set (map a_id (appointments (db (fst (w, ps[j := (u, st')])))))"
      and "status_of (a_id v) (fst (w, ps[j := (u, st')])) = Some Pending \<longrightarrow> a_status v = Pending"
      by simp_all
  qed
qed

lemma consistent_new_page:
  assumes "consistent (w, ps)"
    and "al_appointments st' = [] \<or> from_store w (al_appointments st')"
  shows "consistent (w, ps @ [(u, st')])"
proof -
  have d: "distinct (map a_id (appointments (db w)))"
    using assms(1) by (simp add: consistent_def)
  have new: "\<And>v. v \<in> set (al_appointments st') \<Longrightarrow>
      a_id v \<in> set (map a_id (appointments (db w)))
      \<and> (status_of (a_id v) w = Some Pending \<longrightarrow> a_status v = Pending)"
    using assms(2) d from_store_consistent [of w "al_appointments st'"] by auto
  with assms(1) show ?thesis
    by (auto simp: consistent_def)
qed


lemma consistent_same_rows:
  "appointments (db w') = appointments (db w) \<Longrightarrow> consistent (w', ps) = consistent (w, ps)"
  by (simp add: consistent_def status_of_def)

lemma from_store_same_rows:
  "appointments (db w') = appointments (db w) \<Longrightarrow> from_store w' rows = from_store w rows"
  by (simp add: from_store_def)

lemma consistent_updated:
  assumes "consistent (w, ps)" and "t \<noteq> Pending"
    and "appointments (db w') = map (set_status i t) (appointments (db w))"
  shows "consistent (w', ps)"
  unfolding consistent_def
proof (intro conjI ballI)
  have "distinct (map a_id (appointments (db w)))"
    using assms(1) by (simp add: consistent_def)
  then have "distinct (map a_id (map (set_status i t) (appointments (db w))))"
    by (simp only: ids_set_status)
  then show "distinct (map a_id (appointments (db (fst (w', ps)))))"
    using assms(3) by (simp only: fst_conv)
next
  fix p v
  assume pv: "p \<in> set (snd (w', ps))" "v \<in> set (al_appointments (snd p))"
  with assms(1) have old: "a_id v \<in> set (map a_id (appointments (db w)))"
      "status_of (a_id v) w = Some Pending \<longrightarrow> a_status v = Pending"
    by (simp_all add: consistent_def)
  from old(1) show "a_id v \<in> set (map a_id (appointments (db (fst (w', ps)))))"
    using assms(3) ids_set_status [of i t "appointments (db w)"] by simp
  show "status_of (a_id v) (fst (w', ps)) = Some Pending \<longrightarrow> a_status v = Pending"
  proof
    assume "status_of (a_id v) (fst (w', ps)) = Some Pending"
    then have "row_status (a_id v) (map (set_status i t) (appointments (db w))) = Some Pending"
      using assms(3) by (simp add: status_of_row_status)
    then have "status_of (a_id v) w = Some Pending"
      using assms(2) by (auto simp: row_status_set_status status_of_row_status split: if_splits)
    with old(2) show "a_status v = Pending" by simp
  qed
qed

lemma consistent_inserted:
  assumes "consistent (w, ps)"
    and "appointments (db w') = appointments (db w) @ [a]"
    and "a_id a \<notin> set (map a_id (appointments (db w)))"
  shows "consistent (w', ps)"
  unfolding consistent_def
proof (intro conjI ballI)
  show "distinct (map a_id (appointments (db (fst (w', ps)))))"
    using assms by (simp add: consistent_def)
next
  fix p v
  assume pv: "p \<in> set (snd (w', ps))" "v \<in> set (al_appointments (snd p))"
  with assms(1) have old: "a_id v \<in> set (map a_id (appointments (db w)))"
      "status_of (a_id v) w = Some Pending \<longrightarrow> a_status v = Pending"
    by (simp_all add: consistent_def)
  from old(1) show "a_id v \<in> set (map a_id (appointments (db (fst (w', ps)))))"
    using assms(2) by simp
  from old(1) have "status_of (a_id v) w' = status_of (a_id v) w"
    using assms(2) by (simp add: status_of_row_status row_status_append)
  with old(2) show "status_of (a_id v) (fst (w', ps)) = Some Pending \<longrightarrow> a_status v = Pending"
    by simp
qed

subsection \<open>What one event does to the store\<close>

lemma updateAppointmentStatus_effect:
  "(next_fault w \<noteq> None
      \<and> appointments (db (fst (updateAppointmentStatus w usr st i t))) = appointments (db w)
      \<and> snd (updateAppointmentStatus w usr st i t) = st)
   \<or> (next_fault w = None
      \<and> appointments (db (fst (updateAppointmentStatus w usr st i t)))
          = map (set_status i t) (appointments (db w))
      \<and> (al_appointments (snd (updateAppointmentStatus w usr st i t)) = al_appointments st
          \<or> from_store (fst (updateAppointmentStatus w usr st i t))
               (al_appointments (snd (updateAppointmentStatus w usr st i t)))))"
proof (cases "next_fault w")
  case (Some m)
  then show ?thesis by (simp add: updateAppointmentStatus_fault)
next
  case None
  let ?w1 = "(advance w)\<lparr>db := (db w)\<lparr>appointments := map (set_status i t) (appointments (db w))\<rparr>\<rparr>"
  have eq: "updateAppointmentStatus w usr st i t = fetchAppointments ?w1 usr st"
    using None by (simp add: updateAppointmentStatus_def update_status_ok)
  have same: "appointments (db (fst (fetchAppointments ?w1 usr st))) = appointments (db ?w1)"
    by (simp only: fetchAppointments_db)
  from fetchAppointments_from_store [of ?w1 usr st]
  have "al_appointments (snd (fetchAppointments ?w1 usr st)) = al_appointments st
      \<or> from_store (fst (fetchAppointments ?w1 usr st))
           (al_appointments (snd (fetchAppointments ?w1 usr st)))"
    using from_store_same_rows [OF same] by blast
  with None show ?thesis
    unfolding eq by (simp add: fetchAppointments_db)
qed

lemma insert_appointment_effect:
  "appointments (db (snd (insert_appointment row w))) = appointments (db w)
   \<or> (\<exists>a. appointments (db (snd (insert_appointment row w))) = appointments (db w) @ [a]
          \<and> a_id a \<notin> set (map a_id (appointments (db w))))"
  by (cases "next_fault w") (auto simp: insert_appointment_def Let_def)

lemma onSubmit_effect:
  "appointments (db (fst (onSubmit w usr st form))) = appointments (db w)
   \<or> (\<exists>a. appointments (db (fst (onSubmit w usr st form))) = appointments (db w) @ [a]
          \<and> a_id a \<notin> set (map a_id (appointments (db w))))"
proof (cases "\<exists>u d. usr = Some u \<and> b_doctor st = Some d")
  case False
  then have "onSubmit w usr st form = (w, st)"
    by (cases usr; cases "b_doctor st") (simp_all add: onSubmit_def)
  then show ?thesis by simp
next
  case True
  then obtain u d where ud: "usr = Some u" "b_doctor st = Some d" by blast
  obtain r w1 where ins: "insert_appointment (new_appointment u d form) w = (r, w1)"
    by (cases "insert_appointment (new_appointment u d form) w")
  have "appointments (db (fst (onSubmit w usr st form))) = appointments (db w1)"
    using ud ins by (cases r) (simp_all add: onSubmit_def)
  with insert_appointment_effect [of "new_appointment u d form" w] ins show ?thesis
    by simp
qed

lemma mount_booking_db: "db (fst (mount_booking w i)) = db w"
  by (simp add: mount_booking_def fetchDoctor_db)

lemma create_effect:
  "appointments (db (fst (create w usr i form))) = appointments (db w)
   \<or> (\<exists>a. appointments (db (fst (create w usr i form))) = appointments (db w) @ [a]
          \<and> a_id a \<notin> set (map a_id (appointments (db w))))"
proof -
  obtain w1 st1 where m: "mount_booking w i = (w1, st1)" by (cases "mount_booking w i")
  with mount_booking_db [of w i] have w1: "db w1 = db w" by simp
  show ?thesis
  proof (cases "b_loading st1 \<or> b_doctor st1 = None")
    case True
    with m w1 show ?thesis by (simp add: create_def)
  next
    case False
    then have "create w usr i form = onSubmit w1 usr st1 form"
      unfolding create_def m by (simp only: prod.case if_False)
    with onSubmit_effect [of w1 usr st1 form] w1 show ?thesis by simp
  qed
qed

lemma rendered_subset: "set (rendered st) \<subseteq> set (al_appointments st)"
  by (simp add: rendered_def filteredAppointments_def)

lemma actions_not_Pending: "t \<in> set (actions r s) \<Longrightarrow> t \<noteq> Pending"
  by (auto simp: actions_def split: if_splits)


lemma click_cases:
  obtains (idle)
      "appointments (db (fst (click w usr st a t))) = appointments (db w)"
      "al_appointments (snd (click w usr st a t)) = al_appointments st"
    | (pressed)
      "a \<in> set (rendered st)" "t \<in> set (actions (map_option u_role usr) (a_status a))"
      "appointments (db (fst (click w usr st a t)))
         = map (set_status (a_id a) t) (appointments (db w))"
      "al_appointments (snd (click w usr st a t)) = al_appointments st
       \<or> from_store (fst (click w usr st a t)) (al_appointments (snd (click w usr st a t)))"
proof (cases "a \<in> set (rendered st) \<and> t \<in> set (actions (map_option u_role usr) (a_status a))")
  case False
  then have "click w usr st a t = (w, st)" by (auto simp: click_def)
  then show ?thesis by (intro idle) simp_all
next
  case True
  then have eq: "click w usr st a t = updateAppointmentStatus w usr st (a_id a) t"
    by (simp add: click_def)
  from updateAppointmentStatus_effect [of w usr st "a_id a" t] show ?thesis
  proof
    assume "next_fault w \<noteq> None
      \<and> appointments (db (fst (updateAppointmentStatus w usr st (a_id a) t))) = appointments (db w)
      \<and> snd (updateAppointmentStatus w usr st (a_id a) t) = st"
    then show ?thesis unfolding eq [symmetric] by (intro idle) simp_all
  next
    assume "next_fault w = None
      \<and> appointments (db (fst (updateAppointmentStatus w usr st (a_id a) t)))
          = map (set_status (a_id a) t) (appointments (db w))
      \<and> (al_appointments (snd (updateAppointmentStatus w usr st (a_id a) t)) = al_appointments st
          \<or> from_store (fst (updateAppointmentStatus w usr st (a_id a) t))
               (al_appointments (snd (updateAppointmentStatus w usr st (a_id a) t))))"
    with True show ?thesis unfolding eq [symmetric] by (intro pressed) simp_all
  qed
qed

lemma apply_event_consistent:
  assumes "consistent s"
  shows "consistent (apply_event e s)"
proof -
  obtain w ps where s: "s = (w, ps)" by (cases s)
  show ?thesis
  proof (cases e)
    case (OpenPage u)
    obtain w1 st1 where f: "fetchAppointments w (Some u) appointment_list_initial = (w1, st1)"
      by (cases "fetchAppointments w (Some u) appointment_list_initial")
    from fetchAppointments_db [of w "Some u" appointment_list_initial] f
    have same: "appointments (db w1) = appointments (db w)" by simp
    from fetchAppointments_from_store [of w "Some u" appointment_list_initial] f
    have "al_appointments st1 = [] \<or> from_store w (al_appointments st1)"
      by (simp add: appointment_list_initial_def)
    with assms s have "consistent (w, ps @ [(u, st1)])"
      by (intro consistent_new_page) simp_all
    then have "consistent (w1, ps @ [(u, st1)])"
      by (simp only: consistent_same_rows [OF same])
    with s OpenPage f show ?thesis by simp
  next
    case (SetTab j f)
    show ?thesis
    proof (cases "j < length ps")
      case True
      with assms s have "consistent (w, ps[j := (fst (ps ! j), (snd (ps ! j))\<lparr>al_filter := f\<rparr>)])"
        by (intro consistent_page) simp_all
      with s SetTab True show ?thesis by simp
    next
      case False
      with s SetTab assms show ?thesis by simp
    qed
  next
    case (Book u i form)
    obtain w1 st1 where c: "create w (Some u) i form = (w1, st1)"
      by (cases "create w (Some u) i form")
    from create_effect [of w "Some u" i form] c
    have "appointments (db w1) = appointments (db w)
      \<or> (\<exists>a. appointments (db w1) = appointments (db w) @ [a]
             \<and> a_id a \<notin> set (map a_id (appointments (db w))))"
      by simp
    then have "consistent (w1, ps)"
    proof
      assume "appointments (db w1) = appointments (db w)"
      from consistent_same_rows [OF this, of ps] assms s show ?thesis by simp
    next
      assume "\<exists>a. appointments (db w1) = appointments (db w) @ [a]
             \<and> a_id a \<notin> set (map a_id (appointments (db w)))"
      with assms s show ?thesis by (blast intro: consistent_inserted)
    qed
    with s Book c show ?thesis by simp
  next
    case (Press j a t)
    show ?thesis
    proof (cases "j < length ps")
      case False
      with s Press assms show ?thesis by simp
    next
      case True
      let ?u = "fst (ps ! j)" and ?st = "snd (ps ! j)"
      let ?c = "click w (Some ?u) ?st a t"
      have res: "apply_event e s = (fst ?c, ps[j := (?u, snd ?c)])"
        using s Press True by (simp add: case_prod_beta)
      have "consistent (fst ?c, ps[j := (?u, snd ?c)])"
      proof (cases rule: click_cases [where w = w and usr = "Some ?u" and st = ?st and a = a and t = t])
        case idle
        from assms s have "consistent (fst ?c, ps)"
          by (simp only: consistent_same_rows [OF idle(1)])
        then show ?thesis using True idle(2) by (intro consistent_page) simp_all
      next
        case pressed
        from pressed(2) have tn: "t \<noteq> Pending" by (rule actions_not_Pending)
        from assms s have c0: "consistent (w, ps)" by simp
        have "consistent (fst ?c, ps)"
          by (rule consistent_updated [OF c0 tn pressed(3)])
        then show ?thesis using True pressed(4) by (intro consistent_page) simp_all
      qed
      with res show ?thesis by simp
    qed
  qed
qed

lemma run_consistent: "consistent s \<Longrightarrow> consistent (run es s)"
  by (induction es arbitrary: s) (simp_all add: apply_event_consistent)

lemma consistent_start:
  "distinct (map a_id (appointments (db w))) \<Longrightarrow> consistent (w, [])"
  by (simp add: consistent_def)

lemma apply_event_status:
  assumes "consistent (w, ps)"
    and "status_of i w = Some x"
    and "status_of i (fst (apply_event e (w, ps))) = Some y"
    and "x \<noteq> y"
  shows "\<exists>j a. e = Press j a y \<and> j < length ps \<and> a \<in> set (rendered (snd (ps ! j)))
           \<and> a_id a = i
           \<and> y \<in> set (actions (Some (u_role (fst (ps ! j)))) (a_status a))
           \<and> (x = Pending \<longrightarrow> a_status a = Pending)"
proof (cases e)
  case (OpenPage u)
  have "status_of i (fst (apply_event e (w, ps))) = status_of i w"
    using OpenPage fetchAppointments_db [of w "Some u" appointment_list_initial]
    by (simp add: case_prod_beta status_of_def)
  with assms show ?thesis by simp
next
  case (SetTab j f)
  then have "status_of i (fst (apply_event e (w, ps))) = status_of i w" by simp
  with assms show ?thesis by simp
next
  case (Book u d form)
  from assms(2) have mem: "i \<in> set (map a_id (appointments (db w)))"
    using row_status_Some_iff [of i "appointments (db w)"]
    by (auto simp: status_of_row_status)
  have fst_eq: "fst (apply_event e (w, ps)) = fst (create w (Some u) d form)"
    using Book by (simp add: case_prod_beta)
  from create_effect [of w "Some u" d form] mem
  have "status_of i (fst (create w (Some u) d form)) = status_of i w"
    by (auto simp: status_of_row_status row_status_append)
  with assms fst_eq show ?thesis by simp
next
  case (Press j a t)
  show ?thesis
  proof (cases "j < length ps")
    case False
    with Press have "status_of i (fst (apply_event e (w, ps))) = status_of i w" by simp
    with assms show ?thesis by simp
  next
    case True
    let ?u = "fst (ps ! j)" and ?st = "snd (ps ! j)"
    let ?c = "click w (Some ?u) ?st a t"
    have fst_eq: "fst (apply_event e (w, ps)) = fst ?c"
      using Press True by (simp add: case_prod_beta)
    show ?thesis
    proof (cases rule: click_cases [where w = w and usr = "Some ?u" and st = ?st and a = a and t = t])
      case idle
      then have "status_of i (fst ?c) = status_of i w" by (simp add: status_of_def)
      with assms fst_eq show ?thesis by simp
    next
      case pressed
      have st: "status_of i (fst ?c)
          = (if i = a_id a then map_option (\<lambda>x. t) (status_of i w) else status_of i w)"
        using pressed(3) by (simp add: status_of_row_status row_status_set_status)
      with assms fst_eq have i: "i = a_id a" and y: "y = t"
        by (auto split: if_splits)
      have "x = Pending \<longrightarrow> a_status a = Pending"
      proof
        assume "x = Pending"
        with assms(2) i have "status_of (a_id a) w = Some Pending" by simp
        moreover have "ps ! j \<in> set ps" using True by simp
        moreover have "a \<in> set (al_appointments (snd (ps ! j)))"
          using pressed(1) rendered_subset by blast
        ultimately show "a_status a = Pending"
          using assms(1) by (auto simp: consistent_def)
      qed
      with Press True pressed(1,2) i y show ?thesis by simp
    qed
  qed
qed

text \<open>
  C7, as the code has it. Start from a store with unique ids and no open page, and
  apply any sequence of events (pages opened, tabs chosen, buttons pressed, bookings
  made, store requests failing or not). Whenever one more event changes the stored
  status of an appointment from \<open>x\<close> to \<open>y\<close>, that event is a button rendered on an
  open page for that appointment, and the pair of the status displayed there and
  \<open>y\<close> is in the transition table. Hence \<open>y\<close> is never pending, and pending to
  completed never happens, whatever the pages show. When the page displays the stored
  status \<open>x\<close>, the change is legal and \<open>x\<close> is neither completed nor cancelled.
\<close>

theorem status_changes_of_runs:
  assumes "distinct (map a_id (appointments (db w0)))"
    and "status_of i (fst (run es (w0, []))) = Some x"
    and "status_of i (fst (apply_event e (run es (w0, [])))) = Some y"
    and "x \<noteq> y"
  shows "y \<noteq> Pending \<and> \<not> (x = Pending \<and> y = Completed)
     \<and> (\<exists>j a. e = Press j a y \<and> j < length (snd (run es (w0, [])))
            \<and> a \<in> set (rendered (snd (snd (run es (w0, [])) ! j))) \<and> a_id a = i
            \<and> legal (a_status a) y
            \<and> (a_status a = x \<longrightarrow> legal x y \<and> x \<noteq> Completed \<and> x \<noteq> Cancelled))"
proof -
  obtain w ps where r: "run es (w0, []) = (w, ps)" by (cases "run es (w0, [])")
  have "consistent (run es (w0, []))"
    using assms(1) by (intro run_consistent consistent_start)
  with r have c: "consistent (w, ps)" by simp
  from assms(2,3) r have s: "status_of i w = Some x"
      "status_of i (fst (apply_event e (w, ps))) = Some y"
    by simp_all
  from apply_event_status [OF c s assms(4)]
  obtain j a where ja: "e = Press j a y" "j < length ps" "a \<in> set (rendered (snd (ps ! j)))"
      "a_id a = i" "y \<in> set (actions (Some (u_role (fst (ps ! j)))) (a_status a))"
      "x = Pending \<longrightarrow> a_status a = Pending"
    by blast
  from ja(5) have l: "legal (a_status a) y" by (rule actions_legal)
  from ja(5) have np: "y \<noteq> Pending" by (rule actions_not_Pending)
  from l ja(6) have npc: "\<not> (x = Pending \<and> y = Completed)"
    by (auto simp: legal_def)
  from l have fin: "a_status a = x \<longrightarrow> legal x y \<and> x \<noteq> Completed \<and> x \<noteq> Cancelled"
    by (auto simp: legal_def)
  from ja(1-4) l fin r have "\<exists>j a. e = Press j a y \<and> j < length (snd (run es (w0, [])))
            \<and> a \<in> set (rendered (snd (snd (run es (w0, [])) ! j))) \<and> a_id a = i
            \<and> legal (a_status a) y
            \<and> (a_status a = x \<longrightarrow> legal x y \<and> x \<noteq> Completed \<and> x \<noteq> Cancelled)"
    by auto
  with np npc show ?thesis by blast
qed

theorem status_changes_of_runs_witness:
  "distinct (map a_id (appointments (db ex_world)))
   \<and> status_of ''a-1'' (fst (run [OpenPage ex_doctor_user] (ex_world, []))) = Some Pending
   \<and> status_of ''a-1''
        (fst (apply_event (Press 0 ex_row1 Confirmed)
               (run [OpenPage ex_doctor_user] (ex_world, [])))) = Some Confirmed
   \<and> Pending \<noteq> Confirmed
   \<and> (\<exists>j a. Press 0 ex_row1 Confirmed = Press j a Confirmed
          \<and> a \<in> set (rendered (snd (snd (run [OpenPage ex_doctor_user] (ex_world, [])) ! j)))
          \<and> legal (a_status a) Confirmed)"
proof -
  have h1: "distinct (map a_id (appointments (db ex_world)))" by code_simp
  have h2: "status_of ''a-1'' (fst (run [OpenPage ex_doctor_user] (ex_world, []))) = Some Pending"
    by code_simp
  have h3: "status_of ''a-1''
        (fst (apply_event (Press 0 ex_row1 Confirmed)
               (run [OpenPage ex_doctor_user] (ex_world, [])))) = Some Confirmed"
    by code_simp
  have h4: "Pending \<noteq> Confirmed" by simp
  from status_changes_of_runs [OF h1 h2 h3 h4]
  have "\<exists>j a. Press 0 ex_row1 Confirmed = Press j a Confirmed
          \<and> a \<in> set (rendered (snd (snd (run [OpenPage ex_doctor_user] (ex_world, [])) ! j)))
          \<and> legal (a_status a) Confirmed"
    by blast
  with h1 h2 h3 h4 show ?thesis by blast
qed

text \<open>
  C7 as stated fails where it makes cancelled and completed terminal: the patient and
  the doctor both open their pages while \<open>a-1\<close> is pending, the patient cancels, and
  the doctor's page, which still displays pending, offers the button that confirms
  the cancelled appointment.
\<close>

theorem terminal_status_counterexample:
  "ex_row1 \<in> set (rendered (snd (snd (run ex_two_pages (ex_world, [])) ! 1)))
   \<and> Confirmed \<in> set (actions (Some (u_role (fst (snd (run ex_two_pages (ex_world, [])) ! 1))))
                        (a_status ex_row1))
   \<and> status_of ''a-1'' (fst (run ex_two_pages (ex_world, []))) = Some Cancelled
   \<and> status_of ''a-1''
        (fst (apply_event (Press 1 ex_row1 Confirmed) (run ex_two_pages (ex_world, []))))
       = Some Confirmed"
  by code_simp

end
